theory Spec2Isabelle
  imports Main
begin

section \<open>C strings and the library calls of smallsh.c\<close>

text \<open>
  A C string that the shell reads (an input line, a token, a path) is a \<open>string\<close> holding
  its characters without the terminator: \<open>s[i]\<close> is \<open>c_index s i\<close>, which is the
  terminator at \<open>i = length s\<close>. A block of heap memory is a \<open>char list\<close> with one
  element per byte, so its length is the size of the allocation and an access at an index
  beyond it is a fault of the model, not a value.
\<close>

definition NUL :: char where
  "NUL = CHR 0x00"

definition c_index :: "string \<Rightarrow> nat \<Rightarrow> char" where
  "c_index s i = (if i < length s then s ! i else NUL)"

definition strlen :: "char list \<Rightarrow> nat" where
  "strlen s = length (takeWhile (\<lambda>c. c \<noteq> NUL) s)"

datatype fault =
    AllocFailed string   \<comment> \<open>calloc returned NULL for this token: message, exit(EXIT_FAILURE)\<close>
  | OutOfBlock           \<comment> \<open>a read or write outside the allocated block\<close>

text \<open>The string a pointer into a block denotes: the bytes up to the first terminator.\<close>

definition c_string :: "char list \<Rightarrow> fault + string" where
  "c_string blk =
     (if NUL \<in> set blk then Inr (takeWhile (\<lambda>c. c \<noteq> NUL) blk) else Inl OutOfBlock)"

text \<open>
  \<open>strncat(dest, src, n)\<close>: finds the terminator of \<open>dest\<close>, copies at most \<open>n\<close>
  characters of \<open>src\<close> there and writes a terminator after them.
\<close>

definition strncat :: "char list \<Rightarrow> string \<Rightarrow> nat \<Rightarrow> fault + char list" where
  "strncat dest src n =
     (if NUL \<in> set dest
      then (let d = strlen dest; s = take n (takeWhile (\<lambda>c. c \<noteq> NUL) src)
            in if d + length s < length dest
               then Inr (take d dest @ s @ NUL # drop (d + length s + 1) dest)
               else Inl OutOfBlock)
      else Inl OutOfBlock)"

text \<open>\<open>snprintf(pidStr, sizeof(pidStr), "%d", pid)\<close>: the decimal digits of an int.\<close>

definition decimal_digits :: string where
  "decimal_digits = ''0123456789''"

definition digit_char :: "nat \<Rightarrow> char" where
  "digit_char d = decimal_digits ! (d mod 10)"

function dec_nat :: "nat \<Rightarrow> string" where
  "dec_nat n = (if n < 10 then [digit_char n] else dec_nat (n div 10) @ [digit_char (n mod 10)])"
  by pat_completeness auto
termination
  by (relation "measure id") auto

declare dec_nat.simps [simp del]

definition decimal :: "int \<Rightarrow> string" where
  "decimal i = (if i < 0 then CHR ''-'' # dec_nat (nat (- i)) else dec_nat (nat i))"

text \<open>
  What a process gets from the system while it handles one line: its process id, for a
  request of \<open>n\<close> bytes the size of the zero-filled block calloc hands out (\<open>None\<close>
  when it returns NULL; the C standard promises \<open>n\<close> bytes and no more), and the answers
  of the system calls it makes.
\<close>

datatype open_flags = O_RDONLY | O_WRONLY_CREAT_TRUNC

record sys =
  getpid :: int
  heap :: "nat \<Rightarrow> nat option"
  fork :: int                                   \<comment> \<open>what fork() returns in this process\<close>
  waited :: "int \<Rightarrow> int"                  \<comment> \<open>the status a blocking waitpid(pid, &st, 0) stores\<close>
  zombies :: "(int \<times> int) list"              \<comment> \<open>results of successive waitpid(-1, &st, WNOHANG)\<close>
  open_errno :: "string \<Rightarrow> open_flags \<Rightarrow> int"   \<comment> \<open>0 when open() succeeds\<close>
  can_exec :: "string \<Rightarrow> bool"            \<comment> \<open>whether execvp finds and starts the program\<close>
  home :: "string option"                       \<comment> \<open>getenv("HOME")\<close>
  can_chdir :: "string option \<Rightarrow> bool"

definition calloc :: "sys \<Rightarrow> nat \<Rightarrow> char list option" where
  "calloc os n = map_option (\<lambda>m. replicate m NUL) (heap os n)"

section \<open>ExpandPID\<close>

text \<open>
  The loop of ExpandPID over \<open>arg\<close>, with the two indices and the block \<open>lp_newArg\<close>
  as its state. The test \<open>arg[argIdx + 1] == '$'\<close> is only reached when
  \<open>arg[argIdx]\<close> is not the terminator, so it stays inside the string.
\<close>

function ExpandPID_loop :: "string \<Rightarrow> string \<Rightarrow> nat \<Rightarrow> nat \<Rightarrow> char list \<Rightarrow> fault + char list" where
  "ExpandPID_loop pidStr arg argIdx newArgIdx lp_newArg =
     (if c_index arg argIdx = NUL then Inr lp_newArg
      else if c_index arg argIdx = CHR ''$'' \<and> c_index arg (argIdx + 1) = CHR ''$''
      then (case strncat lp_newArg pidStr (strlen pidStr) of
              Inl e \<Rightarrow> Inl e
            | Inr blk \<Rightarrow>
                ExpandPID_loop pidStr arg (argIdx + 1 + 1) (newArgIdx + strlen pidStr) blk)
      else if newArgIdx < length lp_newArg
      then ExpandPID_loop pidStr arg (argIdx + 1) (newArgIdx + 1)
             (lp_newArg[newArgIdx := c_index arg argIdx])
      else Inl OutOfBlock)"
  by pat_completeness auto
termination
  by (relation "measure (\<lambda>(pidStr, arg, argIdx, newArgIdx, blk). length arg - argIdx)")
     (auto simp: c_index_def split: if_splits)

declare ExpandPID_loop.simps [simp del]

definition ExpandPID :: "sys \<Rightarrow> string \<Rightarrow> fault + string" where
  "ExpandPID os arg =
     (let n = strlen arg;
          pidStr = decimal (getpid os);
          pidLen = strlen pidStr
      in case calloc os ((n div 2) * pidLen + 1) of
           None \<Rightarrow> Inl (AllocFailed arg)
         | Some lp_newArg \<Rightarrow>
             (case ExpandPID_loop pidStr arg 0 0 lp_newArg of
                Inl e \<Rightarrow> Inl e
              | Inr blk \<Rightarrow> c_string blk))"

text \<open>
  The expansion as the specification words it: every occurrence of the two-character
  placeholder, read from the left, becomes the process id; every other character stays.
\<close>

fun spec_expand :: "string \<Rightarrow> string \<Rightarrow> string" where
  "spec_expand p (a # b # cs) =
     (if a = CHR ''$'' \<and> b = CHR ''$'' then p @ spec_expand p cs
      else a # spec_expand p (b # cs))"
| "spec_expand p cs = cs"

section \<open>Tokens and comparison\<close>

text \<open>
  \<open>strncmp(s, t, n)\<close> compares at most \<open>n\<close> characters, the terminator included; only
  the sign of a non-zero result is defined.
\<close>

fun strncmp :: "string \<Rightarrow> string \<Rightarrow> nat \<Rightarrow> int" where
  "strncmp s t 0 = 0"
| "strncmp [] [] (Suc n) = 0"
| "strncmp [] (b # t) (Suc n) = - 1"
| "strncmp (a # s) [] (Suc n) = 1"
| "strncmp (a # s) (b # t) (Suc n) =
     (if a = b then strncmp s t n
      else if (of_char a :: nat) < of_char b then - 1 else 1)"

text \<open>
  \<open>strtok\<close> keeps a pointer into the line between calls; here it takes the rest of the
  line and returns the next token with the rest after it. It skips leading delimiters, and
  the token runs to the next delimiter, which it overwrites, or to the terminator.
\<close>

definition strtok :: "string \<Rightarrow> string \<Rightarrow> (string \<times> string) option" where
  "strtok s delim =
     (let s1 = dropWhile (\<lambda>c. c \<in> set delim) (takeWhile (\<lambda>c. c \<noteq> NUL) s)
      in if s1 = [] then None
         else Some (takeWhile (\<lambda>c. c \<notin> set delim) s1,
                    drop 1 (dropWhile (\<lambda>c. c \<notin> set delim) s1)))"

definition LF :: char where
  "LF = CHR 0x0A"

definition BUF_SIZE :: nat where "BUF_SIZE = 2049"
definition MAX_ARGS :: nat where "MAX_ARGS = 512"
definition MAX_CHILDREN :: nat where "MAX_CHILDREN = 10"

definition PID_VAR :: string where "PID_VAR = ''$$''"
definition INPUT :: string where "INPUT = ''<''"
definition OUTPUT :: string where "OUTPUT = ''>''"
definition BACKGROUND :: string where "BACKGROUND = ''&''"

definition COMMENT :: string where "COMMENT = ''#''"
definition COMMENT_LEN :: nat where "COMMENT_LEN = 1"
definition CD_CMD :: string where "CD_CMD = ''cd''"
definition CD_LEN :: nat where "CD_LEN = 3"
definition EXIT_CMD :: string where "EXIT_CMD = ''exit''"
definition EXIT_LEN :: nat where "EXIT_LEN = 5"
definition STATUS_CMD :: string where "STATUS_CMD = ''status''"
definition STATUS_LEN :: nat where "STATUS_LEN = 7"
definition DEV_NULL :: string where "DEV_NULL = ''/dev/null''"

definition EXIT_SUCCESS :: int where "EXIT_SUCCESS = 0"
definition EXIT_FAILURE :: int where "EXIT_FAILURE = 1"
definition STDIN_FILENO :: int where "STDIN_FILENO = 0"
definition STDOUT_FILENO :: int where "STDOUT_FILENO = 1"

section \<open>The command record and the state of a process\<close>

text \<open>
  The array \<open>args\<close> is a function from its indices, NULL being \<open>None\<close>; the loops
  below only visit indices under \<open>MAX_ARGS\<close>. The paths are pointers too.
\<close>

record cmdStruct =
  args :: "nat \<Rightarrow> string option"
  input :: "string option"
  "output" :: "string option"
  isRedirectInput :: bool
  isRedirectOutput :: bool
  isBackground :: bool

text \<open>What \<open>memset(&newCmd, 0, sizeof(newCmd))\<close> leaves in main.\<close>

definition zeroed_cmd :: cmdStruct where
  "zeroed_cmd = \<lparr>args = (\<lambda>i. None), input = None, output = None,
     isRedirectInput = False, isRedirectOutput = False, isBackground = False\<rparr>"

datatype signal = SIGINT | SIGTSTP | SIGCHLD | SIGTERM

datatype disposition = SIG_DFL | SIG_IGN | SIG_HANDLER

datatype event =
    Stdout string
  | Stderr string
  | Fork
  | Waitpid int bool              \<comment> \<open>the pid waited for; True with WNOHANG\<close>
  | Kill int signal
  | Sigaction signal disposition
  | Open "string option" open_flags
  | Dup2 int int
  | Close int
  | Execvp string "string list"
  | Chdir "string option"

text \<open>
  The module variables of smallsh.c, with what the kernel keeps for the process (the
  dispositions of the signals, the descriptor table: position \<open>n\<close> holds the file
  descriptor \<open>n\<close> is open on) and, as a record of what the process did, the calls it made
  and the text it wrote, in order. A forked child starts from a copy of all of it.
\<close>

record shell =
  childPids :: "nat \<Rightarrow> int"
  childStatus :: int
  backgroundIgnoreSet :: bool
  backgroundUnignoreSet :: bool
  childTerminated :: bool
  foregroundChild :: bool
  ignoreBackground :: bool
  handlers :: "signal \<Rightarrow> disposition"
  fds :: "(string \<times> open_flags) option list"
  trace :: "event list"

datatype ending =
    Exited int                       \<comment> \<open>exit(status)\<close>
  | Replaced string "string list"    \<comment> \<open>execvp succeeded: program and argument vector\<close>
  | Undefined                        \<comment> \<open>an access outside an array or a block\<close>

text \<open>A function either returns a value in a new state, or the process ends inside it.\<close>

datatype 'a step = Continues 'a shell | Stops ending shell

definition final_state :: "'a step \<Rightarrow> shell" where
  "final_state m = (case m of Continues a sh \<Rightarrow> sh | Stops e sh \<Rightarrow> sh)"

definition and_then :: "'a step \<Rightarrow> ('a \<Rightarrow> shell \<Rightarrow> 'b step) \<Rightarrow> 'b step" where
  "and_then m f = (case m of Stops e sh \<Rightarrow> Stops e sh | Continues a sh \<Rightarrow> f a sh)"

definition did :: "event \<Rightarrow> shell \<Rightarrow> shell" where
  "did e sh = sh\<lparr>trace := trace sh @ [e]\<rparr>"

definition stdout_of :: "shell \<Rightarrow> string list" where
  "stdout_of sh = concat (map (\<lambda>e. case e of Stdout t \<Rightarrow> [t] | _ \<Rightarrow> []) (trace sh))"

section \<open>ParseCommand\<close>

text \<open>The local variables of ParseCommand that live across iterations of its loop.\<close>

record parse_locals =
  pcmd :: cmdStruct
  argCount :: nat
  inputFlag :: bool
  outputFlag :: bool

text \<open>The if-chain of the loop body, on the expanded token \<open>lp_tempArg\<close>.\<close>

definition ParseCommand_arg :: "string \<Rightarrow> parse_locals \<Rightarrow> parse_locals" where
  "ParseCommand_arg lp_tempArg l =
     (if inputFlag l
      then l\<lparr>pcmd := (pcmd l)\<lparr>input := Some lp_tempArg\<rparr>, inputFlag := False\<rparr>
      else if outputFlag l
      then l\<lparr>pcmd := (pcmd l)\<lparr>output := Some lp_tempArg\<rparr>, outputFlag := False\<rparr>
      else if strncmp lp_tempArg INPUT 2 = 0
      then l\<lparr>pcmd := (pcmd l)\<lparr>isRedirectInput := True\<rparr>, inputFlag := True\<rparr>
      else if strncmp lp_tempArg OUTPUT 2 = 0
      then l\<lparr>pcmd := (pcmd l)\<lparr>isRedirectOutput := True\<rparr>, outputFlag := True\<rparr>
      else l\<lparr>pcmd := (pcmd l)\<lparr>args := (args (pcmd l))(argCount l \<mapsto> lp_tempArg)\<rparr>,
             argCount := argCount l + 1\<rparr>)"

text \<open>
  The for loop, by the number of iterations it has left (\<open>MAX_ARGS - i\<close>); \<open>buf\<close> is
  what strtok has still to read.
\<close>

fun ParseCommand_loop :: "sys \<Rightarrow> nat \<Rightarrow> string \<Rightarrow> parse_locals \<Rightarrow> fault + parse_locals" where
  "ParseCommand_loop os 0 buf l = Inr l"
| "ParseCommand_loop os (Suc k) buf l =
     (case strtok buf [CHR '' '', LF] of
        None \<Rightarrow> Inr l
      | Some (lp_arg, rest) \<Rightarrow>
          (case ExpandPID os lp_arg of
             Inl e \<Rightarrow> Inl e
           | Inr lp_tempArg \<Rightarrow> ParseCommand_loop os k rest (ParseCommand_arg lp_tempArg l)))"

text \<open>The test after the loop: the last stored argument against the background operator.\<close>

definition ParseCommand_background :: "shell \<Rightarrow> parse_locals \<Rightarrow> cmdStruct" where
  "ParseCommand_background sh l =
     (if argCount l > 0 \<and>
         (case args (pcmd l) (argCount l - 1) of
            None \<Rightarrow> False
          | Some a \<Rightarrow> strncmp a BACKGROUND 2 = 0)
      then (pcmd l)\<lparr>isBackground := (if ignoreBackground sh then False else True),
                        args := (args (pcmd l))(argCount l - 1 := None)\<rparr>
      else pcmd l)"

text \<open>The local variables as ParseCommand initialises them, on the record it is given.\<close>

definition ParseCommand_init :: "cmdStruct \<Rightarrow> parse_locals" where
  "ParseCommand_init command =
     \<lparr>pcmd = command\<lparr>isBackground := False, isRedirectInput := False,
                         isRedirectOutput := False\<rparr>,
      argCount = 0, inputFlag = False, outputFlag = False\<rparr>"

definition ParseCommand :: "sys \<Rightarrow> shell \<Rightarrow> string \<Rightarrow> cmdStruct \<Rightarrow> fault + cmdStruct" where
  "ParseCommand os sh buf command =
     (case ParseCommand_loop os MAX_ARGS buf (ParseCommand_init command) of
        Inl e \<Rightarrow> Inl e
      | Inr l \<Rightarrow> Inr (ParseCommand_background sh l))"

section \<open>The line as a list of tokens\<close>

text \<open>All the tokens strtok finds in a line, in order.\<close>

function tokens :: "string \<Rightarrow> string list" where
  "tokens buf =
     (case strtok buf [CHR '' '', LF] of
        None \<Rightarrow> []
      | Some (t, rest) \<Rightarrow> t # tokens rest)"
  by pat_completeness auto
termination
proof (relation "measure length")
  show "wf (measure length)" by simp
next
  fix buf :: string and x t rest
  assume tok: "strtok buf [CHR '' '', LF] = Some x" and x: "(t, rest) = x"
  let ?d = "[CHR '' '', LF]"
  let ?s1 = "dropWhile (\<lambda>c. c \<in> set ?d) (takeWhile (\<lambda>c. c \<noteq> NUL) buf)"
  from tok x have ne: "?s1 \<noteq> []"
    and rest: "rest = drop 1 (dropWhile (\<lambda>c. c \<notin> set ?d) ?s1)"
    by (auto simp: strtok_def Let_def split: if_splits)
  have a: "length ?s1 \<le> length buf"
    by (meson le_trans length_dropWhile_le length_takeWhile_le)
  have b: "length (dropWhile (\<lambda>c. c \<notin> set ?d) ?s1) \<le> length ?s1"
    by (rule length_dropWhile_le)
  have c: "0 < length ?s1"
    using ne by simp
  have d: "length rest = length (dropWhile (\<lambda>c. c \<notin> set ?d) ?s1) - 1"
    unfolding rest by simp
  from a b c d have "length rest < length buf"
    by linarith
  then show "(rest, buf) \<in> measure length"
    by simp
qed

declare tokens.simps [simp del]

text \<open>The loop of ParseCommand on the tokens it reads, the first \<open>MAX_ARGS\<close> of the line.\<close>

fun ParseCommand_tokens :: "sys \<Rightarrow> string list \<Rightarrow> parse_locals \<Rightarrow> fault + parse_locals" where
  "ParseCommand_tokens os [] l = Inr l"
| "ParseCommand_tokens os (t # ts) l =
     (case ExpandPID os t of
        Inl e \<Rightarrow> Inl e
      | Inr lp_tempArg \<Rightarrow> ParseCommand_tokens os ts (ParseCommand_arg lp_tempArg l))"

text \<open>The if-chain applied to a list of expanded tokens, one after the other.\<close>

fun ParseCommand_args :: "string list \<Rightarrow> parse_locals \<Rightarrow> parse_locals" where
  "ParseCommand_args [] l = l"
| "ParseCommand_args (e # es) l = ParseCommand_args es (ParseCommand_arg e l)"

text \<open>The entries of \<open>args\<close> filled so far, \<open>args[0]\<close> to \<open>args[argCount - 1]\<close>.\<close>

definition stored :: "parse_locals \<Rightarrow> string option list" where
  "stored l = map (args (pcmd l)) [0..<argCount l]"

text \<open>
  The argument tokens of a line, as the specification describes the parser: a redirection
  operator and the token after it, whatever that token is, are not arguments.
\<close>

fun argument_tokens :: "string list \<Rightarrow> string list" where
  "argument_tokens [] = []"
| "argument_tokens [t] = (if t = ''<'' \<or> t = ''>'' then [] else [t])"
| "argument_tokens (t # u # ts) =
     (if t = ''<'' \<or> t = ''>'' then argument_tokens ts else t # argument_tokens (u # ts))"

section \<open>The job table\<close>

definition AddChildPid :: "int \<Rightarrow> shell \<Rightarrow> shell" where
  "AddChildPid pid sh =
     (case find (\<lambda>i. childPids sh i = 0) [0..<MAX_CHILDREN] of
        None \<Rightarrow> sh
      | Some i \<Rightarrow> sh\<lparr>childPids := (childPids sh)(i := pid)\<rparr>)"

definition RemoveChildPid :: "int \<Rightarrow> shell \<Rightarrow> shell" where
  "RemoveChildPid pid sh =
     (case find (\<lambda>i. childPids sh i = pid) [0..<MAX_CHILDREN] of
        None \<Rightarrow> sh
      | Some i \<Rightarrow> sh\<lparr>childPids := (childPids sh)(i := 0)\<rparr>)"

text \<open>The identifiers the table holds, in the order of its slots.\<close>

definition registered :: "shell \<Rightarrow> int list" where
  "registered sh = filter (\<lambda>p. p \<noteq> 0) (map (childPids sh) [0..<MAX_CHILDREN])"

section \<open>Wait statuses\<close>

text \<open>
  The macros of \<open>sys/wait.h\<close> as Linux defines them: the low seven bits of a status hold
  the terminating signal (zero after a normal exit), the next byte the exit code.
\<close>

definition WTERMSIG :: "int \<Rightarrow> int" where
  "WTERMSIG st = st mod 128"

definition WIFEXITED :: "int \<Rightarrow> int" where
  "WIFEXITED st = (if WTERMSIG st = 0 then 1 else 0)"

definition WIFSIGNALED :: "int \<Rightarrow> bool" where
  "WIFSIGNALED st = (0 < WTERMSIG st \<and> WTERMSIG st < 127)"

definition WEXITSTATUS :: "int \<Rightarrow> int" where
  "WEXITSTATUS st = (st div 256) mod 256"

text \<open>The status the kernel reports for a child that called exit, or died of a signal.\<close>

definition exit_status :: "int \<Rightarrow> int" where
  "exit_status c = (c mod 256) * 256"

definition signal_status :: "int \<Rightarrow> int" where
  "signal_status n = n mod 128"

section \<open>Output, signal handlers and built-in commands\<close>

definition UTL_FlushedPrintOut :: "string \<Rightarrow> shell \<Rightarrow> shell" where
  "UTL_FlushedPrintOut t sh = did (Stdout t) sh"

definition HandleSIGCHLD :: "shell \<Rightarrow> shell" where
  "HandleSIGCHLD sh = sh\<lparr>childTerminated := True\<rparr>"

definition HandleSIGTSTP :: "shell \<Rightarrow> shell" where
  "HandleSIGTSTP sh =
     (if \<not> ignoreBackground sh
      then (let sh1 = sh\<lparr>ignoreBackground := True\<rparr>
            in if foregroundChild sh1 then sh1\<lparr>backgroundIgnoreSet := True\<rparr>
               else did (Stdout (take 52
                      ''\<newline>Entering foreground-only mode (& is now ignored)\<newline>: '')) sh1)
      else (let sh1 = sh\<lparr>ignoreBackground := False\<rparr>
            in if foregroundChild sh1 then sh1\<lparr>backgroundUnignoreSet := True\<rparr>
               else did (Stdout (take 32 ''\<newline>Exiting foreground-only mode\<newline>: '')) sh1))"

definition SetSignalHandlers :: "shell \<Rightarrow> shell" where
  "SetSignalHandlers sh =
     (let sh1 = did (Sigaction SIGINT SIG_IGN) (sh\<lparr>handlers := (handlers sh)(SIGINT := SIG_IGN)\<rparr>);
          sh2 = did (Sigaction SIGCHLD SIG_HANDLER)
                  (sh1\<lparr>handlers := (handlers sh1)(SIGCHLD := SIG_HANDLER)\<rparr>)
      in did (Sigaction SIGTSTP SIG_HANDLER)
           (sh2\<lparr>handlers := (handlers sh2)(SIGTSTP := SIG_HANDLER)\<rparr>))"

definition GetInput :: "shell \<Rightarrow> shell" where
  "GetInput sh =
     (let sh1 =
        (if backgroundIgnoreSet sh
         then (UTL_FlushedPrintOut
                 ''\<newline>Entering foreground-only mode (& is now ignored)\<newline>'' sh)
                \<lparr>backgroundIgnoreSet := False\<rparr>
         else if backgroundUnignoreSet sh
         then (UTL_FlushedPrintOut ''\<newline>Exiting foreground-only mode\<newline>'' sh)
                \<lparr>backgroundUnignoreSet := False\<rparr>
         else sh)
      in UTL_FlushedPrintOut '': '' sh1)"

definition MyStatus :: "shell \<Rightarrow> shell" where
  "MyStatus sh =
     UTL_FlushedPrintOut (''exit status '' @ decimal (childStatus sh) @ ''\<newline>'') sh"

definition MyChangeDir :: "sys \<Rightarrow> cmdStruct \<Rightarrow> shell \<Rightarrow> shell" where
  "MyChangeDir os command sh =
     (case args command 1 of
        None \<Rightarrow>
          (let sh1 = did (Chdir (home os)) sh
           in if \<not> can_chdir os (home os)
              then did (Stderr
                     ''Failed to change directory to HOME environment variable.\<newline>'') sh1
              else sh1)
      | Some dir \<Rightarrow>
          (let sh1 = did (Chdir (Some dir)) sh
           in if \<not> can_chdir os (Some dir)
              then UTL_FlushedPrintOut (''Invalid path '' @ dir @ ''\<newline>'') sh1
              else sh1))"

text \<open>
  The loop of MyExit over the slots of the table: a termination signal, then a blocking
  wait that stores the status it collects. Before the loop MyExit calls FreeArgs, which
  frees the strings of \<open>args\<close>; they are values here, and freeing them changes nothing
  the process does afterwards.
\<close>

definition MyExit_child :: "sys \<Rightarrow> shell \<Rightarrow> nat \<Rightarrow> shell" where
  "MyExit_child os sh i =
     (if childPids sh i \<noteq> 0
      then (did (Waitpid (childPids sh i) False) (did (Kill (childPids sh i) SIGTERM) sh))
             \<lparr>childStatus := waited os (childPids sh i)\<rparr>
      else sh)"

definition MyExit :: "sys \<Rightarrow> cmdStruct \<Rightarrow> shell \<Rightarrow> int step" where
  "MyExit os command sh =
     Stops (Exited EXIT_SUCCESS) (foldl (MyExit_child os) sh [0..<MAX_CHILDREN])"

section \<open>UTL_OpenFile and the descriptor table\<close>

definition lowest_free :: "'a option list \<Rightarrow> nat" where
  "lowest_free t = length (takeWhile (\<lambda>x. x \<noteq> None) t)"

definition set_fd :: "nat \<Rightarrow> 'a option \<Rightarrow> 'a option list \<Rightarrow> 'a option list" where
  "set_fd n v t = (if n < length t then t[n := v] else t @ replicate (n - length t) None @ [v])"

definition fd_file :: "shell \<Rightarrow> int \<Rightarrow> (string \<times> open_flags) option" where
  "fd_file sh fd = (if 0 \<le> fd \<and> nat fd < length (fds sh) then fds sh ! nat fd else None)"

definition EFAULT :: int where "EFAULT = 14"

text \<open>
  \<open>open\<close> takes the lowest descriptor not in use; on a NULL path it fails with EFAULT.
  When \<open>open\<close> fails, \<open>err(errno, ...)\<close> writes its message (the program's name and the
  text of the error around the one given here) and ends the process with that status.
\<close>

definition UTL_OpenFile :: "sys \<Rightarrow> string option \<Rightarrow> bool \<Rightarrow> bool \<Rightarrow> shell \<Rightarrow> int step" where
  "UTL_OpenFile os fileName isReadOnly isWriteOnly sh =
     (let flag = (if isReadOnly then O_RDONLY
                  else if isWriteOnly then O_WRONLY_CREAT_TRUNC else O_RDONLY);
          sh1 = did (Open fileName flag) sh
      in case fileName of
           None \<Rightarrow> Stops (Exited EFAULT) (did (Stderr ''Failed to open file (null).\<newline>'') sh1)
         | Some path \<Rightarrow>
             if open_errno os path flag \<noteq> 0
             then Stops (Exited (open_errno os path flag))
                    (did (Stderr (''Failed to open file '' @ path @ ''.\<newline>'')) sh1)
             else Continues (int (lowest_free (fds sh1)))
                    (sh1\<lparr>fds := set_fd (lowest_free (fds sh1)) (Some (path, flag)) (fds sh1)\<rparr>))"

definition OPEN_FILE_READ :: "sys \<Rightarrow> string option \<Rightarrow> shell \<Rightarrow> int step" where
  "OPEN_FILE_READ os fp sh = UTL_OpenFile os fp True False sh"

definition OPEN_FILE_WRITE :: "sys \<Rightarrow> string option \<Rightarrow> shell \<Rightarrow> int step" where
  "OPEN_FILE_WRITE os fp sh = UTL_OpenFile os fp False True sh"

definition dup2 :: "int \<Rightarrow> int \<Rightarrow> shell \<Rightarrow> shell" where
  "dup2 oldfd newfd sh =
     (let sh1 = did (Dup2 oldfd newfd) sh
      in if fd_file sh1 oldfd \<noteq> None \<and> 0 \<le> newfd
         then sh1\<lparr>fds := set_fd (nat newfd) (fd_file sh1 oldfd) (fds sh1)\<rparr>
         else sh1)"

definition close :: "int \<Rightarrow> shell \<Rightarrow> shell" where
  "close fd sh =
     (let sh1 = did (Close fd) sh
      in if fd_file sh1 fd \<noteq> None then sh1\<lparr>fds := (fds sh1)[nat fd := None]\<rparr> else sh1)"

definition sigaction :: "signal \<Rightarrow> disposition \<Rightarrow> shell \<Rightarrow> shell" where
  "sigaction sig d sh = did (Sigaction sig d) (sh\<lparr>handlers := (handlers sh)(sig := d)\<rparr>)"

section \<open>ExternalCommand\<close>

text \<open>
  The child's branch up to the call of execvp: the dispositions, then the redirections.
  It returns the two local descriptors \<open>(outputFd, inputFd)\<close>, each \<open>-1\<close> when unset.
\<close>

definition ExternalCommand_redirect :: "sys \<Rightarrow> cmdStruct \<Rightarrow> shell \<Rightarrow> (int \<times> int) step" where
  "ExternalCommand_redirect os command sh =
     (let sh1 = sigaction SIGCHLD SIG_DFL sh;
          sh2 = sigaction SIGTSTP SIG_IGN sh1
      in
      and_then
        (if isRedirectOutput command
         then and_then (OPEN_FILE_WRITE os (output command) sh2)
                (\<lambda>fd s. Continues fd (dup2 fd STDOUT_FILENO s))
         else Continues (- 1) sh2)
        (\<lambda>outputFd sh3.
      and_then
        (if isRedirectInput command
         then and_then (OPEN_FILE_READ os (input command) sh3)
                (\<lambda>fd s. Continues fd (dup2 fd STDIN_FILENO s))
         else Continues (- 1) sh3)
        (\<lambda>inputFd sh4.
      if \<not> isBackground command
      then Continues (outputFd, inputFd) (sigaction SIGINT SIG_DFL sh4)
      else
        and_then
          (if \<not> isRedirectOutput command
           then and_then (OPEN_FILE_WRITE os (Some DEV_NULL) sh4)
                  (\<lambda>fd s. Continues fd (dup2 fd STDOUT_FILENO s))
           else Continues outputFd sh4)
          (\<lambda>outputFd sh5.
        and_then
          (if \<not> isRedirectInput command
           then and_then (OPEN_FILE_READ os (Some DEV_NULL) sh5)
                  (\<lambda>fd s. Continues fd (dup2 fd STDIN_FILENO s))
           else Continues inputFd sh5)
          (\<lambda>inputFd sh6. Continues (outputFd, inputFd) sh6)))))"

text \<open>
  The argument vector execvp reads: the entries of \<open>args\<close> up to the first NULL. When no
  entry of the array is NULL the vector is not closed inside the array.
\<close>

definition argv :: "cmdStruct \<Rightarrow> string list" where
  "argv command = map the (takeWhile (\<lambda>a. a \<noteq> None) (map (args command) [0..<MAX_ARGS]))"

definition ExternalCommand_exec :: "sys \<Rightarrow> cmdStruct \<Rightarrow> int \<times> int \<Rightarrow> shell \<Rightarrow> int step" where
  "ExternalCommand_exec os command locals sh =
     (case args command 0 of
        None \<Rightarrow> Stops Undefined sh
      | Some prog \<Rightarrow>
          if list_all (\<lambda>i. args command i \<noteq> None) [0..<MAX_ARGS] then Stops Undefined sh
          else (let sh1 = did (Execvp prog (argv command)) sh
                in if can_exec os prog then Stops (Replaced prog (argv command)) sh1
                   else (let sh2 = UTL_FlushedPrintOut
                                     (prog @ '': no such file or directory\<newline>'') sh1;
                             sh3 = (if fst locals \<noteq> - 1 then close (fst locals) sh2 else sh2);
                             sh4 = (if snd locals \<noteq> - 1 then close (snd locals) sh3 else sh3)
                         in Stops (Exited EXIT_FAILURE) sh4)))"

text \<open>
  The parent's branch. Its blocking wait stores the status of the child it waited for.
\<close>

definition ExternalCommand_parent :: "sys \<Rightarrow> cmdStruct \<Rightarrow> int \<Rightarrow> shell \<Rightarrow> shell" where
  "ExternalCommand_parent os command pid sh =
     (let sh1 = AddChildPid pid sh
      in if \<not> isBackground command
         then (let sh2 = sh1\<lparr>foregroundChild := True\<rparr>;
                   sh3 = (did (Waitpid pid False) sh2)\<lparr>childStatus := waited os pid\<rparr>;
                   sh4 = RemoveChildPid pid sh3;
                   sh5 = sh4\<lparr>foregroundChild := False\<rparr>
               in if WIFSIGNALED (childStatus sh5)
                  then UTL_FlushedPrintOut
                         (''terminated by signal '' @ decimal (WTERMSIG (childStatus sh5)) @
                          ''\<newline>'') sh5
                  else if childStatus sh5 \<noteq> 0
                  then sh5\<lparr>childStatus := WIFEXITED (childStatus sh5)\<rparr>
                  else sh5)
         else UTL_FlushedPrintOut (''background pid is '' @ decimal pid @ ''\<newline>'') sh1)"

definition ExternalCommand :: "sys \<Rightarrow> cmdStruct \<Rightarrow> shell \<Rightarrow> int step" where
  "ExternalCommand os command sh =
     (let pid = fork os; sh0 = did Fork sh
      in if pid = - 1
         then Continues EXIT_SUCCESS (did (Stderr ''Failed to fork child process\<newline>'') sh0)
         else if pid = 0
         then and_then (ExternalCommand_redirect os command sh0) (ExternalCommand_exec os command)
         else Continues EXIT_SUCCESS (ExternalCommand_parent os command pid sh0))"

section \<open>ReapZombies\<close>

text \<open>
  The loop \<open>while ((pid = waitpid(-1, &childStatus, WNOHANG)) > 0)\<close> against the results
  the system gives to its successive calls; a call that finds no terminated child returns
  \<open>0\<close> or \<open>-1\<close> and stores no status, as does the call after the last result listed.
\<close>

fun ReapZombies_loop :: "(int \<times> int) list \<Rightarrow> shell \<Rightarrow> shell" where
  "ReapZombies_loop [] sh = did (Waitpid (- 1) True) sh"
| "ReapZombies_loop ((pid, st) # rest) sh =
     (if pid > 0
      then (let sh1 = (did (Waitpid (- 1) True) sh)\<lparr>childStatus := st\<rparr>;
                sh2 = UTL_FlushedPrintOut
                        (''background pid '' @ decimal pid @ '' is done: '') sh1;
                sh3 = (if WIFSIGNALED (childStatus sh2)
                       then UTL_FlushedPrintOut
                              (''terminated by signal '' @ decimal (WTERMSIG (childStatus sh2)) @
                               ''\<newline>'') sh2
                       else UTL_FlushedPrintOut
                              (''exit value '' @ decimal (childStatus sh2) @ ''\<newline>'') sh2)
            in ReapZombies_loop rest (RemoveChildPid pid sh3))
      else did (Waitpid (- 1) True) sh)"

definition ReapZombies :: "sys \<Rightarrow> shell \<Rightarrow> shell" where
  "ReapZombies os sh = (ReapZombies_loop (zombies os) sh)\<lparr>childTerminated := False\<rparr>"


section \<open>RunCommand and the body of main's loop\<close>

datatype branch = Blank | Comment_line | Builtin_cd | Builtin_exit | Builtin_status | External

text \<open>Which branch of RunCommand's if-chain the first argument selects.\<close>

definition RunCommand_branch :: "cmdStruct \<Rightarrow> branch" where
  "RunCommand_branch command =
     (case args command 0 of
        None \<Rightarrow> Blank
      | Some a \<Rightarrow>
          if strncmp a COMMENT COMMENT_LEN = 0 then Comment_line
          else if strncmp a CD_CMD CD_LEN = 0 then Builtin_cd
          else if strncmp a EXIT_CMD EXIT_LEN = 0 then Builtin_exit
          else if strncmp a STATUS_CMD STATUS_LEN = 0 then Builtin_status
          else External)"

definition RunCommand :: "sys \<Rightarrow> cmdStruct \<Rightarrow> shell \<Rightarrow> int step" where
  "RunCommand os command sh =
     (case RunCommand_branch command of
        Blank \<Rightarrow> Continues EXIT_SUCCESS sh
      | Comment_line \<Rightarrow> Continues EXIT_SUCCESS sh
      | Builtin_cd \<Rightarrow> Continues EXIT_SUCCESS (MyChangeDir os command sh)
      | Builtin_exit \<Rightarrow> MyExit os command sh
      | Builtin_status \<Rightarrow> Continues EXIT_SUCCESS (MyStatus sh)
      | External \<Rightarrow>
          and_then (ExternalCommand os command sh) (\<lambda>r s. Continues EXIT_SUCCESS s))"

text \<open>
  One turn of the loop of main on the line fgets stores, of which it keeps at most
  \<open>BUF_SIZE - 1\<close> characters. The handlers of SIGCHLD and SIGTSTP run between its steps;
  they are the functions above, applied to the state when the signal arrives.
\<close>

definition main_body :: "sys \<Rightarrow> string \<Rightarrow> shell \<Rightarrow> int step" where
  "main_body os line sh =
     (let sh1 = GetInput sh
      in case ParseCommand os sh1 (take (BUF_SIZE - 1) line) zeroed_cmd of
           Inl (AllocFailed a) \<Rightarrow>
             Stops (Exited EXIT_FAILURE)
               (did (Stderr (''Failed to allocate space for arg '' @ a @ ''\<newline>'')) sh1)
         | Inl OutOfBlock \<Rightarrow> Stops Undefined sh1
         | Inr newCmd \<Rightarrow>
             and_then (RunCommand os newCmd sh1)
               (\<lambda>r sh2. Continues EXIT_SUCCESS
                          (if childTerminated sh2 then ReapZombies os sh2 else sh2)))"

section \<open>A system and a state to run the shell on\<close>

text \<open>
  The state main starts from (the static initialisers of the module variables, the three
  standard descriptors on the terminal), and a system whose allocator rounds small
  requests up to 24 bytes, where the shell has process id 1234, the next child 4321.
\<close>

definition initial_shell :: shell where
  "initial_shell =
     \<lparr>childPids = (\<lambda>i. 0), childStatus = 0,
      backgroundIgnoreSet = False, backgroundUnignoreSet = False, childTerminated = False,
      foregroundChild = False, ignoreBackground = False,
      handlers = (\<lambda>s. SIG_DFL),
      fds = [Some (''/dev/tty'', O_RDONLY), Some (''/dev/tty'', O_WRONLY_CREAT_TRUNC),
             Some (''/dev/tty'', O_WRONLY_CREAT_TRUNC)],
      trace = []\<rparr>"

definition sample_sys :: sys where
  "sample_sys =
     \<lparr>getpid = 1234, heap = (\<lambda>n. Some (max n 24)), fork = 4321,
      waited = (\<lambda>p. exit_status 0), zombies = [],
      open_errno = (\<lambda>p f. 0), can_exec = (\<lambda>p. True),
      home = Some ''/root'', can_chdir = (\<lambda>p. True)\<rparr>"

section \<open>Properties of the library calls\<close>

lemma strncmp_exact: "strncmp s t (Suc (length t)) = 0 \<longleftrightarrow> s = t"
proof (induction t arbitrary: s)
  case Nil
  then show ?case by (cases s) auto
next
  case (Cons b t)
  then show ?case by (cases s) auto
qed

lemma strncmp_prefix: "strncmp s t (length t) = 0 \<longleftrightarrow> take (length t) s = t"
proof (induction t arbitrary: s)
  case Nil
  then show ?case by simp
next
  case (Cons b t)
  then show ?case by (cases s) auto
qed

section \<open>ExpandPID and the size of its block\<close>

lemma NUL_not_dollar: "CHR ''$'' \<noteq> NUL"
  by (simp add: NUL_def)

lemma takeWhile_clean: "NUL \<notin> set s \<Longrightarrow> takeWhile (\<lambda>c. c \<noteq> NUL) s = s"
  by (rule takeWhile_eq_all_conv[THEN iffD2]) auto

lemma strlen_clean: "NUL \<notin> set s \<Longrightarrow> strlen s = length s"
  by (simp add: strlen_def takeWhile_clean)

lemma takeWhile_block:
  "NUL \<notin> set w \<Longrightarrow> takeWhile (\<lambda>c. c \<noteq> NUL) (w @ replicate r NUL) = w"
  by (induction w) (auto simp: takeWhile_replicate)

lemma strlen_block: "NUL \<notin> set w \<Longrightarrow> strlen (w @ replicate r NUL) = length w"
  by (simp add: strlen_def takeWhile_block)

lemma strncat_unfold:
  assumes "NUL \<notin> set w" "NUL \<notin> set p" "NUL \<in> set (w @ replicate r NUL)"
  shows "strncat (w @ replicate r NUL) p (length p) =
           (if length w + length p < length (w @ replicate r NUL)
            then Inr (take (length w) (w @ replicate r NUL) @ p @
                      NUL # drop (length w + length p + 1) (w @ replicate r NUL))
            else Inl OutOfBlock)"
proof -
  have len: "strlen (w @ replicate r NUL) = length w"
    using assms(1) by (rule strlen_block)
  have src: "take (length p) (takeWhile (\<lambda>c. c \<noteq> NUL) p) = p"
    using assms(2) by (simp add: takeWhile_clean)
  show ?thesis
    by (simp only: strncat_def Let_def len src assms(3) if_True)
qed

lemma strncat_block:
  assumes "NUL \<notin> set w" "NUL \<notin> set p"
  shows "strncat (w @ replicate r NUL) p (length p) =
           (if length p < r then Inr ((w @ p) @ replicate (r - length p) NUL)
            else Inl OutOfBlock)"
proof (cases "length p < r")
  case True
  define k where "k = r - length p - 1"
  have r: "r = length p + Suc k"
    using True by (simp add: k_def)
  have nul: "NUL \<in> set (w @ replicate r NUL)"
    using r by simp
  have tk: "take (length w) (w @ replicate r NUL) = w"
    by simp
  have dr: "drop (length w + length p + 1) (w @ replicate r NUL) = replicate k NUL"
    by (simp add: r)
  have cond: "length w + length p < length (w @ replicate r NUL)"
    using True by simp
  have "strncat (w @ replicate r NUL) p (length p) = Inr (w @ p @ NUL # replicate k NUL)"
    unfolding strncat_unfold[OF assms nul] tk dr using cond by (simp only: if_True)
  moreover have "replicate (r - length p) NUL = NUL # replicate k NUL"
    using r by simp
  ultimately show ?thesis
    using True by simp
next
  case False
  show ?thesis
  proof (cases "NUL \<in> set (w @ replicate r NUL)")
    case nul: True
    have "\<not> length w + length p < length (w @ replicate r NUL)"
      using False by simp
    then show ?thesis
      unfolding strncat_unfold[OF assms nul] using False by (simp only: if_False)
  next
    case nonul: False
    then show ?thesis
      using False by (simp only: strncat_def if_False)
  qed
qed

lemma store_block:
  "0 < r \<Longrightarrow> (w @ replicate r NUL)[length w := a] = (w @ [a]) @ replicate (r - 1) NUL"
  by (cases r) (simp_all add: list_update_append)

lemma spec_expand_plain:
  "\<not> (a = CHR ''$'' \<and> cs \<noteq> [] \<and> hd cs = CHR ''$'') \<Longrightarrow>
     spec_expand p (a # cs) = a # spec_expand p cs"
  by (cases cs) auto

lemma ExpandPID_loop_end:
  "c_index arg i = NUL \<Longrightarrow> ExpandPID_loop p arg i n b = Inr b"
  by (subst ExpandPID_loop.simps) simp

lemma ExpandPID_loop_pid:
  "c_index arg i = CHR ''$'' \<Longrightarrow> c_index arg (Suc i) = CHR ''$'' \<Longrightarrow>
   ExpandPID_loop p arg i n b =
     (case strncat b p (strlen p) of
        Inl e \<Rightarrow> Inl e
      | Inr blk \<Rightarrow> ExpandPID_loop p arg (Suc (Suc i)) (n + strlen p) blk)"
  by (subst ExpandPID_loop.simps) (simp add: NUL_not_dollar split: sum.split)

lemma ExpandPID_loop_char:
  "c_index arg i \<noteq> NUL \<Longrightarrow>
   \<not> (c_index arg i = CHR ''$'' \<and> c_index arg (Suc i) = CHR ''$'') \<Longrightarrow>
   ExpandPID_loop p arg i n b =
     (if n < length b then ExpandPID_loop p arg (Suc i) (Suc n) (b[n := c_index arg i])
      else Inl OutOfBlock)"
  by (subst ExpandPID_loop.simps) auto

lemma ExpandPID_loop_block:
  assumes "NUL \<notin> set p" "NUL \<notin> set arg"
  shows "NUL \<notin> set w \<Longrightarrow>
    (case ExpandPID_loop p arg i (length w) (w @ replicate r NUL) of
       Inr b \<Rightarrow> length (spec_expand p (drop i arg)) \<le> r \<and>
                b = w @ spec_expand p (drop i arg) @
                      replicate (r - length (spec_expand p (drop i arg))) NUL
     | Inl e \<Rightarrow> e = OutOfBlock \<and> r \<le> length (spec_expand p (drop i arg)))"
proof (induction "length arg - i" arbitrary: i w r rule: less_induct)
  case less
  show ?case
  proof (cases "i < length arg")
    case False
    then have "c_index arg i = NUL" by (simp add: c_index_def)
    then show ?thesis
      using False by (simp add: ExpandPID_loop_end)
  next
    case True
    then have a: "arg ! i \<noteq> NUL" "c_index arg i = arg ! i"
      using assms(2) by (metis nth_mem, simp add: c_index_def)
    have d: "drop i arg = arg ! i # drop (Suc i) arg"
      using True by (simp add: Cons_nth_drop_Suc)
    show ?thesis
    proof (cases "c_index arg i = CHR ''$'' \<and> c_index arg (Suc i) = CHR ''$''")
      case dollar: True
      then have i1: "Suc i < length arg"
        using NUL_not_dollar by (auto simp: c_index_def split: if_splits)
      have d2: "drop i arg = CHR ''$'' # CHR ''$'' # drop (Suc (Suc i)) arg"
        using d dollar a Cons_nth_drop_Suc[OF i1] i1 by (simp add: c_index_def)
      have out: "spec_expand p (drop i arg) = p @ spec_expand p (drop (Suc (Suc i)) arg)"
        unfolding d2 by simp
      note unf = ExpandPID_loop_pid[OF conjunct1[OF dollar] conjunct2[OF dollar],
                   of p "length w" "w @ replicate r NUL"]
      note cat = strncat_block[OF less.prems assms(1), of r]
      have sl: "strlen p = length p" using assms(1) by (rule strlen_clean)
      show ?thesis
      proof (cases "length p < r")
        case fits: True
        have m: "length arg - Suc (Suc i) < length arg - i" using True by simp
        have w': "NUL \<notin> set (w @ p)" using less.prems assms(1) by simp
        note IH = less.hyps[OF m w', of "r - length p"]
        have step: "ExpandPID_loop p arg i (length w) (w @ replicate r NUL) =
                    ExpandPID_loop p arg (Suc (Suc i)) (length (w @ p))
                      ((w @ p) @ replicate (r - length p) NUL)"
          unfolding unf sl cat using fits by simp
        show ?thesis
        proof (cases "ExpandPID_loop p arg (Suc (Suc i)) (length (w @ p))
                        ((w @ p) @ replicate (r - length p) NUL)")
          case (Inl e)
          then show ?thesis using IH fits unfolding step out by (simp; arith?)
        next
          case (Inr b)
          then show ?thesis using IH fits unfolding step out by (simp; arith?)
        qed
      next
        case nofit: False
        have "ExpandPID_loop p arg i (length w) (w @ replicate r NUL) = Inl OutOfBlock"
          unfolding unf sl cat using nofit by simp
        then show ?thesis
          using nofit unfolding out by simp
      qed
    next
      case plain: False
      have nz: "c_index arg i \<noteq> NUL" using a by simp
      have "\<not> (arg ! i = CHR ''$'' \<and> drop (Suc i) arg \<noteq> [] \<and> hd (drop (Suc i) arg) = CHR ''$'')"
        using plain a by (auto simp: c_index_def hd_drop_conv_nth)
      then have out: "spec_expand p (drop i arg) = arg ! i # spec_expand p (drop (Suc i) arg)"
        unfolding d by (rule spec_expand_plain)
      note unf = ExpandPID_loop_char[OF nz plain, of p "length w" "w @ replicate r NUL"]
      show ?thesis
      proof (cases "0 < r")
        case room: True
        have m: "length arg - Suc i < length arg - i" using True by simp
        have w': "NUL \<notin> set (w @ [arg ! i])" using less.prems a by simp
        note IH = less.hyps[OF m w', of "r - 1"]
        have step: "ExpandPID_loop p arg i (length w) (w @ replicate r NUL) =
                    ExpandPID_loop p arg (Suc i) (length (w @ [arg ! i]))
                      ((w @ [arg ! i]) @ replicate (r - 1) NUL)"
          unfolding unf a(2) using room store_block[OF room, of w "arg ! i"] by simp
        show ?thesis
        proof (cases "ExpandPID_loop p arg (Suc i) (length (w @ [arg ! i]))
                        ((w @ [arg ! i]) @ replicate (r - 1) NUL)")
          case (Inl e)
          then show ?thesis using IH room unfolding step out by (simp; arith?)
        next
          case (Inr b)
          then show ?thesis using IH room unfolding step out by (simp; arith?)
        qed
      next
        case full: False
        have "ExpandPID_loop p arg i (length w) (w @ replicate r NUL) = Inl OutOfBlock"
          unfolding unf using full by simp
        then show ?thesis
          using full unfolding out by simp
      qed
    qed
  qed
qed

lemma digit_char_set: "digit_char d \<in> set decimal_digits"
proof -
  have "d mod 10 < length decimal_digits" by (simp add: decimal_digits_def)
  then show ?thesis unfolding digit_char_def by (rule nth_mem)
qed

lemma dec_nat_set: "set (dec_nat n) \<subseteq> set decimal_digits"
proof (induction n rule: dec_nat.induct)
  case (1 n)
  show ?case
  proof (cases "n < 10")
    case True
    then have "dec_nat n = [digit_char n]" by (subst dec_nat.simps) simp
    then show ?thesis using digit_char_set[of n] by simp
  next
    case False
    then have "dec_nat n = dec_nat (n div 10) @ [digit_char (n mod 10)]"
      by (subst dec_nat.simps) simp
    then show ?thesis
      using 1[OF False] digit_char_set[of "n mod 10"] by simp
  qed
qed

lemma dec_nat_nonempty: "dec_nat n \<noteq> []"
  by (subst dec_nat.simps) simp

lemma decimal_set: "set (decimal i) \<subseteq> insert (CHR ''-'') (set decimal_digits)"
proof (cases "i < 0")
  case True
  then have "set (decimal i) = insert (CHR ''-'') (set (dec_nat (nat (- i))))"
    by (simp add: decimal_def)
  then show ?thesis using dec_nat_set[of "nat (- i)"] by blast
next
  case False
  then have "set (decimal i) = set (dec_nat (nat i))"
    by (simp add: decimal_def)
  then show ?thesis using dec_nat_set[of "nat i"] by blast
qed

lemma decimal_nonempty: "decimal i \<noteq> []"
  by (simp add: decimal_def dec_nat_nonempty)

lemma decimal_digits_plain:
  "c \<in> insert (CHR ''-'') (set decimal_digits) \<Longrightarrow>
   c \<noteq> NUL \<and> c \<noteq> CHR ''<'' \<and> c \<noteq> CHR ''>'' \<and> c \<noteq> CHR ''&'' \<and> c \<noteq> CHR ''$''"
  by (simp add: decimal_digits_def NUL_def) blast

lemma decimal_NUL: "NUL \<notin> set (decimal i)"
  using decimal_set[of i] decimal_digits_plain[of NUL] by blast

lemma spec_expand_NUL:
  "NUL \<notin> set p \<Longrightarrow> NUL \<notin> set s \<Longrightarrow> NUL \<notin> set (spec_expand p s)"
  by (induction p s rule: spec_expand.induct) auto

text \<open>
  ExpandPID against the specification's expansion: it returns the expansion when the block
  calloc hands out has room for it and its terminator, and ends outside the block
  otherwise.
\<close>

lemma ExpandPID_eq:
  assumes "NUL \<notin> set arg"
    and "heap os ((length arg div 2) * length (decimal (getpid os)) + 1) = Some m"
  shows "ExpandPID os arg =
           (if length (spec_expand (decimal (getpid os)) arg) < m
            then Inr (spec_expand (decimal (getpid os)) arg)
            else Inl OutOfBlock)"
proof -
  let ?p = "decimal (getpid os)"
  let ?out = "spec_expand ?p arg"
  have p: "NUL \<notin> set ?p" by (rule decimal_NUL)
  have out: "NUL \<notin> set ?out" using p assms(1) by (rule spec_expand_NUL)
  have blk: "calloc os ((strlen arg div 2) * strlen ?p + 1) = Some (replicate m NUL)"
    using assms p by (simp add: calloc_def strlen_clean)
  note L = ExpandPID_loop_block[OF p assms(1), where w = "[]" and i = 0 and r = m, simplified]
  show ?thesis
  proof (cases "ExpandPID_loop ?p arg 0 0 (replicate m NUL)")
    case (Inl e)
    then show ?thesis using L blk by (simp add: ExpandPID_def Let_def)
  next
    case (Inr b)
    then have b: "b = ?out @ replicate (m - length ?out) NUL" and le: "length ?out \<le> m"
      using L by simp_all
    show ?thesis
    proof (cases "length ?out < m")
      case True
      then have "c_string b = Inr ?out"
        using out by (simp add: c_string_def b takeWhile_block)
      then show ?thesis using Inr blk True by (simp add: ExpandPID_def Let_def)
    next
      case False
      then have "b = ?out" using b le by simp
      then have "c_string b = Inl OutOfBlock" using out by (simp add: c_string_def)
      then show ?thesis using Inr blk False by (simp add: ExpandPID_def Let_def)
    qed
  qed
qed

lemma ExpandPID_Inr:
  assumes "NUL \<notin> set arg" and "ExpandPID os arg = Inr s"
  shows "s = spec_expand (decimal (getpid os)) arg"
proof (cases "heap os ((length arg div 2) * length (decimal (getpid os)) + 1)")
  case None
  then show ?thesis
    using assms decimal_NUL[of "getpid os"]
    by (simp add: ExpandPID_def calloc_def strlen_clean Let_def)
next
  case (Some m)
  then show ?thesis
    using ExpandPID_eq[OF assms(1) Some] assms(2) by (simp split: if_splits)
qed

text \<open>
  C1. The claim is that ExpandPID returns, for every token, the token with each placeholder
  replaced by the process id and every other character kept. ExpandPID asks calloc for
  \<open>(n / 2) * pidLen + 1\<close> bytes, which is less than the expansion and its terminator
  need when the token has a character outside its placeholders and the process id is
  short, or the length of the token is odd. With an allocator that hands out the bytes
  asked for and no more: for \<open>a$$\<close> and process id 1234 the block has five bytes and
  strncat writes the terminator of \<open>a1234\<close> at index five; for \<open>a\<close> the block has
  one byte and the string returned has no terminator inside it; for \<open>abc\<close> and process
  id 7 the block has two bytes and the third character is stored at index two.
\<close>

theorem ExpandPID_block_too_small:
  "ExpandPID (sample_sys\<lparr>heap := Some\<rparr>) ''a$$'' = Inl OutOfBlock
   \<and> spec_expand (decimal (getpid sample_sys)) ''a$$'' = ''a1234''
   \<and> ExpandPID (sample_sys\<lparr>heap := Some\<rparr>) ''a'' = Inl OutOfBlock
   \<and> ExpandPID (sample_sys\<lparr>getpid := 7, heap := Some\<rparr>) ''abc'' = Inl OutOfBlock"
proof -
  have "ExpandPID (sample_sys\<lparr>heap := Some\<rparr>) ''a$$'' = Inl OutOfBlock"
    by code_simp
  moreover have "spec_expand (decimal (getpid sample_sys)) ''a$$'' = ''a1234''"
    by code_simp
  moreover have "ExpandPID (sample_sys\<lparr>heap := Some\<rparr>) ''a'' = Inl OutOfBlock"
    by code_simp
  moreover have "ExpandPID (sample_sys\<lparr>getpid := 7, heap := Some\<rparr>) ''abc'' = Inl OutOfBlock"
    by code_simp
  ultimately show ?thesis by simp
qed

section \<open>ParseCommand on the tokens of a line\<close>

lemma strtok_clean:
  assumes "strtok buf d = Some (t, rest)"
  shows "NUL \<notin> set t"
proof
  assume "NUL \<in> set t"
  moreover have "t = takeWhile (\<lambda>c. c \<notin> set d)
                      (dropWhile (\<lambda>c. c \<in> set d) (takeWhile (\<lambda>c. c \<noteq> NUL) buf))"
    using assms by (auto simp: strtok_def Let_def split: if_splits)
  ultimately have "NUL \<in> set (takeWhile (\<lambda>c. c \<noteq> NUL) buf)"
    by (metis set_dropWhileD set_takeWhileD)
  then show False
    by (metis set_takeWhileD)
qed

lemma tokens_clean: "t \<in> set (tokens buf) \<Longrightarrow> NUL \<notin> set t"
proof (induction buf rule: tokens.induct)
  case (1 buf)
  show ?case
  proof (cases "strtok buf [CHR '' '', LF]")
    case None
    then show ?thesis using "1.prems" by (subst (asm) tokens.simps) simp
  next
    case (Some x)
    obtain u rest where x: "x = (u, rest)" by (cases x)
    have "tokens buf = u # tokens rest"
      using Some x by (subst tokens.simps) simp
    then show ?thesis
      using "1.prems" "1.IH"[OF Some x[symmetric]] strtok_clean[of buf _ u rest] Some x
      by auto
  qed
qed

lemma ParseCommand_loop_tokens:
  "ParseCommand_loop os k buf l = ParseCommand_tokens os (take k (tokens buf)) l"
proof (induction k arbitrary: buf l)
  case 0
  then show ?case by simp
next
  case (Suc k)
  show ?case
  proof (cases "strtok buf [CHR '' '', LF]")
    case None
    then have "tokens buf = []" by (subst tokens.simps) simp
    then show ?thesis using None by simp
  next
    case (Some x)
    obtain u rest where x: "x = (u, rest)" by (cases x)
    have "tokens buf = u # tokens rest"
      using Some x by (subst tokens.simps) simp
    then show ?thesis
      using Some x Suc.IH by (simp split: sum.splits)
  qed
qed

lemma ParseCommand_tokens_Inr:
  "ParseCommand_tokens os ts l = Inr l' \<Longrightarrow> (\<And>t. t \<in> set ts \<Longrightarrow> NUL \<notin> set t) \<Longrightarrow>
   l' = ParseCommand_args (map (spec_expand (decimal (getpid os))) ts) l"
proof (induction ts arbitrary: l)
  case Nil
  then show ?case by simp
next
  case (Cons t ts)
  from Cons.prems(1) obtain e where e: "ExpandPID os t = Inr e"
    and r: "ParseCommand_tokens os ts (ParseCommand_arg e l) = Inr l'"
    by (auto split: sum.splits)
  have "e = spec_expand (decimal (getpid os)) t"
    using ExpandPID_Inr[OF _ e] Cons.prems(2) by simp
  then show ?case
    using Cons.IH[OF r] Cons.prems(2) by simp
qed

lemma ParseCommand_tokens_returns:
  "(\<And>t. t \<in> set ts \<Longrightarrow> \<exists>e. ExpandPID os t = Inr e) \<Longrightarrow>
   \<exists>l'. ParseCommand_tokens os ts l = Inr l'"
proof (induction ts arbitrary: l)
  case Nil
  then show ?case by simp
next
  case (Cons t ts)
  then obtain e where "ExpandPID os t = Inr e" by auto
  then show ?case using Cons by simp
qed

lemma ParseCommand_tokens_Inl:
  "ParseCommand_tokens os ts l = Inl e \<Longrightarrow> \<exists>t \<in> set ts. ExpandPID os t = Inl e"
  by (induction ts arbitrary: l) (auto split: sum.splits)

lemma ParseCommand_eq:
  "ParseCommand os sh buf command =
     (case ParseCommand_tokens os (take MAX_ARGS (tokens buf)) (ParseCommand_init command) of
        Inl e \<Rightarrow> Inl e
      | Inr l \<Rightarrow> Inr (ParseCommand_background sh l))"
  by (simp add: ParseCommand_def ParseCommand_loop_tokens)

lemma ParseCommand_Inr:
  assumes "ParseCommand os sh buf command = Inr c"
  shows "c = ParseCommand_background sh
               (ParseCommand_args
                  (map (spec_expand (decimal (getpid os))) (take MAX_ARGS (tokens buf)))
                  (ParseCommand_init command))"
proof -
  from assms obtain l where l: "ParseCommand_tokens os (take MAX_ARGS (tokens buf))
                                   (ParseCommand_init command) = Inr l"
    and c: "c = ParseCommand_background sh l"
    by (auto simp: ParseCommand_eq split: sum.splits)
  have "\<And>t. t \<in> set (take MAX_ARGS (tokens buf)) \<Longrightarrow> NUL \<notin> set t"
    by (meson in_set_takeD tokens_clean)
  from ParseCommand_tokens_Inr[OF l this] c show ?thesis by simp
qed



lemma strncmp_INPUT: "strncmp e INPUT 2 = 0 \<longleftrightarrow> e = ''<''"
  using strncmp_exact[of e "''<''"] by (simp add: INPUT_def eval_nat_numeral)

lemma strncmp_OUTPUT: "strncmp e OUTPUT 2 = 0 \<longleftrightarrow> e = ''>''"
  using strncmp_exact[of e "''>''"] by (simp add: OUTPUT_def eval_nat_numeral)

lemma strncmp_BACKGROUND: "strncmp e BACKGROUND 2 = 0 \<longleftrightarrow> e = ''&''"
  using strncmp_exact[of e "''&''"] by (simp add: BACKGROUND_def eval_nat_numeral)

lemma ParseCommand_arg_eq:
  "ParseCommand_arg e l =
     (if inputFlag l
      then l\<lparr>pcmd := (pcmd l)\<lparr>input := Some e\<rparr>, inputFlag := False\<rparr>
      else if outputFlag l
      then l\<lparr>pcmd := (pcmd l)\<lparr>output := Some e\<rparr>, outputFlag := False\<rparr>
      else if e = ''<''
      then l\<lparr>pcmd := (pcmd l)\<lparr>isRedirectInput := True\<rparr>, inputFlag := True\<rparr>
      else if e = ''>''
      then l\<lparr>pcmd := (pcmd l)\<lparr>isRedirectOutput := True\<rparr>, outputFlag := True\<rparr>
      else l\<lparr>pcmd := (pcmd l)\<lparr>args := (args (pcmd l))(argCount l \<mapsto> e)\<rparr>,
             argCount := argCount l + 1\<rparr>)"
  by (simp add: ParseCommand_arg_def strncmp_INPUT strncmp_OUTPUT)


lemma argument_tokens_op:
  "e = ''<'' \<or> e = ''>'' \<Longrightarrow> argument_tokens (e # es) = argument_tokens (drop 1 es)"
  by (cases es) auto

lemma argument_tokens_arg:
  "e \<noteq> ''<'' \<Longrightarrow> e \<noteq> ''>'' \<Longrightarrow> argument_tokens (e # es) = e # argument_tokens es"
  by (cases es) auto

lemma stored_arg:
  "stored (ParseCommand_arg e l) =
     (if inputFlag l \<or> outputFlag l \<or> e = ''<'' \<or> e = ''>'' then stored l
      else stored l @ [Some e])"
  by (auto simp: ParseCommand_arg_eq stored_def)

lemma stored_args:
  "\<not> (inputFlag l \<and> outputFlag l) \<Longrightarrow>
   stored (ParseCommand_args es l) =
     stored l @ map Some (argument_tokens (if inputFlag l \<or> outputFlag l then drop 1 es else es))"
proof (induction es arbitrary: l)
  case Nil
  then show ?case by simp
next
  case (Cons e es)
  let ?l1 = "ParseCommand_arg e l"
  show ?case
  proof (cases "inputFlag l \<or> outputFlag l")
    case True
    then have f: "\<not> inputFlag ?l1" "\<not> outputFlag ?l1"
      using Cons.prems by (auto simp: ParseCommand_arg_eq)
    have s: "stored ?l1 = stored l"
      using True by (auto simp: stored_arg)
    have "stored (ParseCommand_args es ?l1) = stored ?l1 @ map Some (argument_tokens es)"
      using Cons.IH[of ?l1] f by simp
    then show ?thesis
      using True s by simp
  next
    case False
    show ?thesis
    proof (cases "e = ''<'' \<or> e = ''>''")
      case True
      then have f: "inputFlag ?l1 \<or> outputFlag ?l1" "\<not> (inputFlag ?l1 \<and> outputFlag ?l1)"
        using False by (auto simp: ParseCommand_arg_eq)
      have s: "stored ?l1 = stored l"
        using True by (auto simp: stored_arg)
      have "stored (ParseCommand_args es ?l1) =
              stored ?l1 @ map Some (argument_tokens (drop 1 es))"
        using Cons.IH[OF f(2)] f(1) by simp
      then show ?thesis
        using False s argument_tokens_op[OF True, of es] by simp
    next
      case arg: False
      then have f: "\<not> inputFlag ?l1" "\<not> outputFlag ?l1"
        using False by (auto simp: ParseCommand_arg_eq)
      have s: "stored ?l1 = stored l @ [Some e]"
        using False arg by (auto simp: stored_arg)
      have "stored (ParseCommand_args es ?l1) = stored ?l1 @ map Some (argument_tokens es)"
        using Cons.IH[of ?l1] f by simp
      then show ?thesis
        using False s arg argument_tokens_arg[of e es] by simp
    qed
  qed
qed

lemma isBackground_args: "isBackground (pcmd (ParseCommand_args es l)) = isBackground (pcmd l)"
  by (induction es arbitrary: l) (auto simp: ParseCommand_arg_eq)

lemma stored_last:
  assumes "stored l = map Some xs"
  shows "argCount l = length xs"
    and "xs \<noteq> [] \<Longrightarrow> args (pcmd l) (argCount l - 1) = Some (last xs)"
proof -
  show n: "argCount l = length xs"
    using assms by (metis length_map length_upt minus_nat.diff_0 stored_def)
  assume ne: "xs \<noteq> []"
  then have "argCount l - 1 < argCount l" using n by simp
  then have "stored l ! (argCount l - 1) = args (pcmd l) (argCount l - 1)"
    by (simp add: stored_def)
  moreover have "map Some xs ! (argCount l - 1) = Some (last xs)"
    using ne n by (simp add: last_conv_nth)
  ultimately show "args (pcmd l) (argCount l - 1) = Some (last xs)"
    using assms by simp
qed

lemma isBackground_background:
  assumes "stored l = map Some xs" "\<not> isBackground (pcmd l)"
  shows "isBackground (ParseCommand_background sh l) \<longleftrightarrow>
           \<not> ignoreBackground sh \<and> xs \<noteq> [] \<and> last xs = ''&''"
proof (cases "xs = []")
  case True
  then show ?thesis
    using stored_last(1)[OF assms(1)] assms(2) by (simp add: ParseCommand_background_def)
next
  case False
  then show ?thesis
    using stored_last[OF assms(1)] assms(2)
    by (simp add: ParseCommand_background_def strncmp_BACKGROUND)
qed
lemma spec_expand_Nil: "p \<noteq> [] \<Longrightarrow> spec_expand p t = [] \<longleftrightarrow> t = []"
  by (induction p t rule: spec_expand.induct) auto

lemma spec_expand_single:
  assumes "p \<noteq> []" "c \<notin> set p"
  shows "spec_expand p t = [c] \<longleftrightarrow> t = [c]"
proof (cases t)
  case Nil
  then show ?thesis by simp
next
  case (Cons a u)
  show ?thesis
  proof (cases u)
    case Nil
    then show ?thesis using Cons by simp
  next
    case (Cons b cs)
    show ?thesis
    proof (cases "a = CHR ''$'' \<and> b = CHR ''$''")
      case True
      obtain x xs where p: "p = x # xs" using assms(1) by (cases p) auto
      then have "x \<noteq> c" using assms(2) by auto
      then show ?thesis
        using True Cons \<open>t = a # u\<close> p by simp
    next
      case False
      then show ?thesis
        using Cons \<open>t = a # u\<close> spec_expand_Nil[OF assms(1), of "b # cs"] by auto
    qed
  qed
qed

lemma decimal_expand_single:
  assumes "c = CHR ''<'' \<or> c = CHR ''>'' \<or> c = CHR ''&''"
  shows "spec_expand (decimal i) t = [c] \<longleftrightarrow> t = [c]"
proof -
  have "c \<notin> set (decimal i)"
    using decimal_set[of i] decimal_digits_plain[of c] assms by blast
  then show ?thesis
    using spec_expand_single[OF decimal_nonempty] by blast
qed

lemma argument_tokens_map:
  assumes "\<And>t. (f t = ''<'' \<longleftrightarrow> t = ''<'') \<and> (f t = ''>'' \<longleftrightarrow> t = ''>'')"
  shows "argument_tokens (map f ts) = map f (argument_tokens ts)"
  by (induction ts rule: argument_tokens.induct) (simp_all add: assms)

lemma argument_tokens_expand:
  "argument_tokens (map (spec_expand (decimal i)) ts) =
     map (spec_expand (decimal i)) (argument_tokens ts)"
  by (rule argument_tokens_map) (simp add: decimal_expand_single)

lemma init_flags:
  "\<not> inputFlag (ParseCommand_init command)" "\<not> outputFlag (ParseCommand_init command)"
  by (simp_all add: ParseCommand_init_def)

lemma stored_init: "stored (ParseCommand_init command) = []"
  by (simp add: stored_def ParseCommand_init_def)

text \<open>
  What the test after the loop computes: the record has \<open>isBackground\<close> set exactly when
  foreground-only mode is off and the last argument token among the first \<open>MAX_ARGS\<close>
  tokens of the line is \<open>&\<close>.
\<close>

lemma ParseCommand_isBackground_iff:
  assumes "ParseCommand os sh buf command = Inr c"
  shows "isBackground c \<longleftrightarrow>
           \<not> ignoreBackground sh \<and>
           argument_tokens (take MAX_ARGS (tokens buf)) \<noteq> [] \<and>
           last (argument_tokens (take MAX_ARGS (tokens buf))) = ''&''"
proof -
  let ?ts = "take MAX_ARGS (tokens buf)"
  let ?f = "spec_expand (decimal (getpid os))"
  let ?l = "ParseCommand_args (map ?f ?ts) (ParseCommand_init command)"
  have c: "c = ParseCommand_background sh ?l"
    using assms by (rule ParseCommand_Inr)
  have "stored ?l = map Some (argument_tokens (map ?f ?ts))"
    using stored_args[of "ParseCommand_init command" "map ?f ?ts"]
    by (simp add: stored_init init_flags)
  then have s: "stored ?l = map Some (map ?f (argument_tokens ?ts))"
    by (simp only: argument_tokens_expand)
  have b: "\<not> isBackground (pcmd ?l)"
    by (simp add: isBackground_args ParseCommand_init_def)
  have "isBackground c \<longleftrightarrow>
          \<not> ignoreBackground sh \<and> map ?f (argument_tokens ?ts) \<noteq> [] \<and>
          last (map ?f (argument_tokens ?ts)) = ''&''"
    unfolding c by (rule isBackground_background[OF s b])
  then show ?thesis
    by (auto simp: last_map decimal_expand_single)
qed

text \<open>
  C3. The claim is that \<open>isBackground\<close> is set only if the final raw token of the line
  was \<open>&\<close> and foreground-only mode was off, so that \<open>cat & < file\<close> never gives a
  background command; the comment before the test in ParseCommand says the same. The test
  reads \<open>args[argCount - 1]\<close>, the last stored argument, and the tokens of a redirection
  are not stored in \<open>args\<close>: for the line \<open>cat & < file\<close>, with foreground-only mode
  off, ParseCommand returns a record with \<open>isBackground\<close> set, \<open>cat\<close> as its only
  argument and \<open>file\<close> as its input path, although the final token of the line is
  \<open>file\<close>.
\<close>

theorem ParseCommand_isBackground_not_final_token:
  "\<not> isl (ParseCommand sample_sys initial_shell ''cat & < file\<newline>'' zeroed_cmd)
   \<and> isBackground (projr (ParseCommand sample_sys initial_shell ''cat & < file\<newline>'' zeroed_cmd))
   \<and> argv (projr (ParseCommand sample_sys initial_shell ''cat & < file\<newline>'' zeroed_cmd))
       = [''cat'']
   \<and> input (projr (ParseCommand sample_sys initial_shell ''cat & < file\<newline>'' zeroed_cmd))
       = Some ''file''
   \<and> \<not> ignoreBackground initial_shell
   \<and> tokens ''cat & < file\<newline>'' = [''cat'', ''&'', ''<'', ''file'']"
proof -
  let ?r = "ParseCommand sample_sys initial_shell ''cat & < file\<newline>'' zeroed_cmd"
  have "\<not> isl ?r"
    by code_simp
  moreover have "isBackground (projr ?r)"
    by code_simp
  moreover have "argv (projr ?r) = [''cat'']"
    by code_simp
  moreover have "input (projr ?r) = Some ''file''"
    by code_simp
  moreover have "\<not> ignoreBackground initial_shell"
    by (simp add: initial_shell_def)
  moreover have "tokens ''cat & < file\<newline>'' = [''cat'', ''&'', ''<'', ''file'']"
    by code_simp
  ultimately show ?thesis by simp
qed

section \<open>A redirection operator without its path\<close>












section \<open>Toggling foreground-only mode\<close>

lemma HandleSIGTSTP_toggles: "ignoreBackground (HandleSIGTSTP sh) = (\<not> ignoreBackground sh)"
  by (simp add: HandleSIGTSTP_def Let_def did_def)

lemma HandleSIGTSTP_even:
  "ignoreBackground ((HandleSIGTSTP ^^ (2 * n)) sh) = ignoreBackground sh"
  by (induction n) (simp_all add: HandleSIGTSTP_toggles)

lemma ParseCommand_ignoreBackground:
  "ignoreBackground sh = ignoreBackground sh' \<Longrightarrow>
   ParseCommand os sh buf command = ParseCommand os sh' buf command"
  by (simp add: ParseCommand_def ParseCommand_background_def split: sum.split)

text \<open>
  C7. The handler of the stop signal negates the mode flag, so running it twice, or any
  even number of times, gives the flag its value back, and ParseCommand, which reads no
  other module variable, then returns what it returned before. For a line whose last
  argument token is \<open>&\<close> the record it returns is a background command exactly when
  the flag is off, so such a line is a background command again once the mode is toggled
  back.
\<close>

theorem HandleSIGTSTP_twice:
  "ignoreBackground (HandleSIGTSTP sh) = (\<not> ignoreBackground sh)
   \<and> ignoreBackground (HandleSIGTSTP (HandleSIGTSTP sh)) = ignoreBackground sh
   \<and> ignoreBackground ((HandleSIGTSTP ^^ (2 * n)) sh) = ignoreBackground sh
   \<and> ParseCommand os ((HandleSIGTSTP ^^ (2 * n)) sh) buf command = ParseCommand os sh buf command
   \<and> (\<forall>c. ParseCommand os sh buf command = Inr c \<and>
            argument_tokens (take MAX_ARGS (tokens buf)) \<noteq> [] \<and>
            last (argument_tokens (take MAX_ARGS (tokens buf))) = ''&'' \<longrightarrow>
            isBackground c = (\<not> ignoreBackground sh))"
proof (intro conjI allI impI)
  show "ignoreBackground (HandleSIGTSTP sh) = (\<not> ignoreBackground sh)"
    by (rule HandleSIGTSTP_toggles)
  show "ignoreBackground (HandleSIGTSTP (HandleSIGTSTP sh)) = ignoreBackground sh"
    by (simp add: HandleSIGTSTP_toggles)
  show e: "ignoreBackground ((HandleSIGTSTP ^^ (2 * n)) sh) = ignoreBackground sh"
    by (rule HandleSIGTSTP_even)
  show "ParseCommand os ((HandleSIGTSTP ^^ (2 * n)) sh) buf command = ParseCommand os sh buf command"
    using e by (rule ParseCommand_ignoreBackground)
next
  fix c
  assume "ParseCommand os sh buf command = Inr c \<and>
          argument_tokens (take MAX_ARGS (tokens buf)) \<noteq> [] \<and>
          last (argument_tokens (take MAX_ARGS (tokens buf))) = ''&''"
  then show "isBackground c = (\<not> ignoreBackground sh)"
    using ParseCommand_isBackground_iff[of os sh buf command c] by simp
qed

theorem HandleSIGTSTP_twice_witness:
  "ParseCommand sample_sys (HandleSIGTSTP (HandleSIGTSTP initial_shell)) ''sleep 5 &\<newline>'' zeroed_cmd
     = ParseCommand sample_sys initial_shell ''sleep 5 &\<newline>'' zeroed_cmd
   \<and> isBackground (projr (ParseCommand sample_sys (HandleSIGTSTP (HandleSIGTSTP initial_shell))
                             ''sleep 5 &\<newline>'' zeroed_cmd))
   \<and> ignoreBackground (HandleSIGTSTP initial_shell)
   \<and> \<not> isBackground (projr (ParseCommand sample_sys (HandleSIGTSTP initial_shell)
                               ''sleep 5 &\<newline>'' zeroed_cmd))"
proof -
  let ?b = "''sleep 5 &\<newline>''"
  let ?r = "ParseCommand sample_sys initial_shell ?b zeroed_cmd"
  let ?q = "ParseCommand sample_sys (HandleSIGTSTP initial_shell) ?b zeroed_cmd"
  note T = HandleSIGTSTP_twice[of _ 1 sample_sys ?b zeroed_cmd]
  have two: "(HandleSIGTSTP ^^ (2 * 1)) initial_shell = HandleSIGTSTP (HandleSIGTSTP initial_shell)"
    by (simp add: numeral_2_eq_2)
  have i: "\<not> ignoreBackground initial_shell" by (simp add: initial_shell_def)
  have a: "argument_tokens (take MAX_ARGS (tokens ?b)) = [''sleep'', ''5'', ''&'']"
    by code_simp
  have r: "\<not> isl ?r" by code_simp
  then obtain c where c: "?r = Inr c" by (cases ?r) auto
  have q: "\<not> isl ?q" by code_simp
  then obtain d where d: "?q = Inr d" by (cases ?q) auto
  have same: "ParseCommand sample_sys (HandleSIGTSTP (HandleSIGTSTP initial_shell)) ?b zeroed_cmd = ?r"
    using T[of initial_shell] two by simp
  have "isBackground c"
    using T[of initial_shell] c a i by simp
  moreover have "ignoreBackground (HandleSIGTSTP initial_shell)"
    using T[of initial_shell] i by simp
  moreover have "\<not> isBackground d"
    using T[of "HandleSIGTSTP initial_shell"] T[of initial_shell] d a i by simp
  ultimately show ?thesis
    using same c d by simp
qed

section \<open>Dispatch in RunCommand\<close>

lemma strncmp_COMMENT:
  "strncmp a COMMENT COMMENT_LEN = 0 \<longleftrightarrow> a \<noteq> [] \<and> hd a = CHR ''#''"
  using strncmp_prefix[of a "''#''"] by (cases a) (auto simp: COMMENT_def COMMENT_LEN_def)

lemma strncmp_CD: "strncmp a CD_CMD CD_LEN = 0 \<longleftrightarrow> a = ''cd''"
  using strncmp_exact[of a "''cd''"] by (simp add: CD_CMD_def CD_LEN_def eval_nat_numeral)

lemma strncmp_EXIT: "strncmp a EXIT_CMD EXIT_LEN = 0 \<longleftrightarrow> a = ''exit''"
  using strncmp_exact[of a "''exit''"] by (simp add: EXIT_CMD_def EXIT_LEN_def eval_nat_numeral)

lemma strncmp_STATUS: "strncmp a STATUS_CMD STATUS_LEN = 0 \<longleftrightarrow> a = ''status''"
  using strncmp_exact[of a "''status''"]
  by (simp add: STATUS_CMD_def STATUS_LEN_def eval_nat_numeral)

lemma RunCommand_branch_eq:
  "args command 0 = Some a \<Longrightarrow>
   RunCommand_branch command =
     (if a \<noteq> [] \<and> hd a = CHR ''#'' then Comment_line
      else if a = ''cd'' then Builtin_cd
      else if a = ''exit'' then Builtin_exit
      else if a = ''status'' then Builtin_status
      else External)"
  by (simp add: RunCommand_branch_def strncmp_COMMENT strncmp_CD strncmp_EXIT strncmp_STATUS)

text \<open>
  C9. RunCommand, for a command whose first argument is \<open>a\<close>: when \<open>a\<close> starts
  with \<open>#\<close> it does nothing, whatever follows the \<open>#\<close>; it calls MyChangeDir,
  MyExit or MyStatus exactly when \<open>a\<close> is \<open>cd\<close>, \<open>exit\<close> or \<open>status\<close>;
  and it calls ExternalCommand for every other first argument, \<open>exitnow\<close> and
  \<open>statusx\<close> among them.
\<close>

theorem RunCommand_dispatch:
  assumes "args command 0 = Some a"
  shows "RunCommand os command sh =
           (if a \<noteq> [] \<and> hd a = CHR ''#'' then Continues EXIT_SUCCESS sh
            else if a = ''cd'' then Continues EXIT_SUCCESS (MyChangeDir os command sh)
            else if a = ''exit'' then MyExit os command sh
            else if a = ''status'' then Continues EXIT_SUCCESS (MyStatus sh)
            else and_then (ExternalCommand os command sh) (\<lambda>r s. Continues EXIT_SUCCESS s))
       \<and> RunCommand_branch command =
           (if a \<noteq> [] \<and> hd a = CHR ''#'' then Comment_line
            else if a = ''cd'' then Builtin_cd
            else if a = ''exit'' then Builtin_exit
            else if a = ''status'' then Builtin_status
            else External)"
  using RunCommand_branch_eq[OF assms]
  by (simp add: RunCommand_def)

theorem RunCommand_dispatch_witness:
  "RunCommand sample_sys (zeroed_cmd\<lparr>args := [0 \<mapsto> ''#foo'']\<rparr>) initial_shell
       = Continues EXIT_SUCCESS initial_shell
   \<and> RunCommand sample_sys (zeroed_cmd\<lparr>args := [0 \<mapsto> ''exitnow'']\<rparr>) initial_shell
       = and_then (ExternalCommand sample_sys (zeroed_cmd\<lparr>args := [0 \<mapsto> ''exitnow'']\<rparr>)
                     initial_shell) (\<lambda>r s. Continues EXIT_SUCCESS s)
   \<and> RunCommand sample_sys (zeroed_cmd\<lparr>args := [0 \<mapsto> ''statusx'']\<rparr>) initial_shell
       = and_then (ExternalCommand sample_sys (zeroed_cmd\<lparr>args := [0 \<mapsto> ''statusx'']\<rparr>)
                     initial_shell) (\<lambda>r s. Continues EXIT_SUCCESS s)
   \<and> RunCommand sample_sys (zeroed_cmd\<lparr>args := [0 \<mapsto> ''exit'']\<rparr>) initial_shell
       = MyExit sample_sys (zeroed_cmd\<lparr>args := [0 \<mapsto> ''exit'']\<rparr>) initial_shell
   \<and> RunCommand sample_sys (zeroed_cmd\<lparr>args := [0 \<mapsto> ''cd'']\<rparr>) initial_shell
       = Continues EXIT_SUCCESS
           (MyChangeDir sample_sys (zeroed_cmd\<lparr>args := [0 \<mapsto> ''cd'']\<rparr>) initial_shell)
   \<and> RunCommand sample_sys (zeroed_cmd\<lparr>args := [0 \<mapsto> ''status'']\<rparr>) initial_shell
       = Continues EXIT_SUCCESS (MyStatus initial_shell)"
  using RunCommand_dispatch[of "zeroed_cmd\<lparr>args := [0 \<mapsto> ''#foo'']\<rparr>" "''#foo''"
          sample_sys initial_shell]
        RunCommand_dispatch[of "zeroed_cmd\<lparr>args := [0 \<mapsto> ''exitnow'']\<rparr>" "''exitnow''"
          sample_sys initial_shell]
        RunCommand_dispatch[of "zeroed_cmd\<lparr>args := [0 \<mapsto> ''statusx'']\<rparr>" "''statusx''"
          sample_sys initial_shell]
        RunCommand_dispatch[of "zeroed_cmd\<lparr>args := [0 \<mapsto> ''exit'']\<rparr>" "''exit''"
          sample_sys initial_shell]
        RunCommand_dispatch[of "zeroed_cmd\<lparr>args := [0 \<mapsto> ''cd'']\<rparr>" "''cd''"
          sample_sys initial_shell]
        RunCommand_dispatch[of "zeroed_cmd\<lparr>args := [0 \<mapsto> ''status'']\<rparr>" "''status''"
          sample_sys initial_shell]
  by simp

section \<open>The bound on the tokens ParseCommand reads\<close>

lemma strtok_cstr: "strtok (takeWhile (\<lambda>c. c \<noteq> NUL) s) d = strtok s d"
  by (simp add: strtok_def)

lemma tokens_cstr: "tokens (takeWhile (\<lambda>c. c \<noteq> NUL) s) = tokens s"
  by (subst tokens.simps, subst (2) tokens.simps) (simp add: strtok_cstr)

lemma tokens_word: "tokens (''a '' @ s) = ''a'' # tokens s"
proof -
  have "strtok (''a '' @ s) [CHR '' '', LF] = Some (''a'', takeWhile (\<lambda>c. c \<noteq> NUL) s)"
    by (simp add: strtok_def NUL_def LF_def)
  then have "tokens (''a '' @ s) = ''a'' # tokens (takeWhile (\<lambda>c. c \<noteq> NUL) s)"
    by (subst tokens.simps) simp
  then show ?thesis by (simp only: tokens_cstr)
qed

lemma tokens_words: "tokens (concat (replicate n ''a '') @ s) = replicate n ''a'' @ tokens s"
proof (induction n)
  case 0
  then show ?case by simp
next
  case (Suc n)
  have "tokens (concat (replicate (Suc n) ''a '') @ s) =
        tokens (''a '' @ (concat (replicate n ''a '') @ s))"
    by simp
  also have "\<dots> = ''a'' # tokens (concat (replicate n ''a '') @ s)"
    by (rule tokens_word)
  finally show ?case using Suc by simp
qed

text \<open>
  C8. ParseCommand is its loop body applied to the first \<open>MAX_ARGS = 512\<close> tokens of the
  line and to no other: two lines that agree on those tokens give the same result, so
  whatever follows them is dropped. It has no failure of its own: when it ends without a
  record, ExpandPID ended so on one of those tokens, and when ExpandPID returns on each
  of them ParseCommand returns a record, however many tokens the line has.
\<close>

theorem ParseCommand_MAX_ARGS:
  "MAX_ARGS = 512
   \<and> ParseCommand os sh buf command =
       (case ParseCommand_tokens os (take MAX_ARGS (tokens buf)) (ParseCommand_init command) of
          Inl e \<Rightarrow> Inl e
        | Inr l \<Rightarrow> Inr (ParseCommand_background sh l))
   \<and> (take MAX_ARGS (tokens buf) = take MAX_ARGS (tokens buf') \<longrightarrow>
        ParseCommand os sh buf command = ParseCommand os sh buf' command)
   \<and> (\<forall>e. ParseCommand os sh buf command = Inl e \<longrightarrow>
            (\<exists>t \<in> set (take MAX_ARGS (tokens buf)). ExpandPID os t = Inl e))
   \<and> ((\<forall>t \<in> set (take MAX_ARGS (tokens buf)). \<exists>x. ExpandPID os t = Inr x) \<longrightarrow>
        (\<exists>c. ParseCommand os sh buf command = Inr c))"
proof (intro conjI allI impI)
  show "MAX_ARGS = 512" by (simp add: MAX_ARGS_def)
  show "ParseCommand os sh buf command =
       (case ParseCommand_tokens os (take MAX_ARGS (tokens buf)) (ParseCommand_init command) of
          Inl e \<Rightarrow> Inl e
        | Inr l \<Rightarrow> Inr (ParseCommand_background sh l))"
    by (rule ParseCommand_eq)
next
  assume "take MAX_ARGS (tokens buf) = take MAX_ARGS (tokens buf')"
  then show "ParseCommand os sh buf command = ParseCommand os sh buf' command"
    by (simp add: ParseCommand_eq)
next
  fix e
  assume "ParseCommand os sh buf command = Inl e"
  then have "ParseCommand_tokens os (take MAX_ARGS (tokens buf)) (ParseCommand_init command) = Inl e"
    by (simp add: ParseCommand_eq split: sum.splits)
  then show "\<exists>t \<in> set (take MAX_ARGS (tokens buf)). ExpandPID os t = Inl e"
    by (rule ParseCommand_tokens_Inl)
next
  assume "\<forall>t \<in> set (take MAX_ARGS (tokens buf)). \<exists>x. ExpandPID os t = Inr x"
  then obtain l where
    "ParseCommand_tokens os (take MAX_ARGS (tokens buf)) (ParseCommand_init command) = Inr l"
    using ParseCommand_tokens_returns[of "take MAX_ARGS (tokens buf)" os "ParseCommand_init command"]
    by blast
  then show "\<exists>c. ParseCommand os sh buf command = Inr c"
    by (simp add: ParseCommand_eq)
qed

theorem ParseCommand_MAX_ARGS_witness:
  "length (tokens (concat (replicate MAX_ARGS ''a '') @ ''b c'')) = 514
   \<and> ParseCommand sample_sys initial_shell (concat (replicate MAX_ARGS ''a '') @ ''b c'') zeroed_cmd
     = ParseCommand sample_sys initial_shell (concat (replicate MAX_ARGS ''a '')) zeroed_cmd
   \<and> \<not> isl (ParseCommand sample_sys initial_shell
               (concat (replicate MAX_ARGS ''a '') @ ''b c'') zeroed_cmd)"
proof -
  let ?long = "concat (replicate MAX_ARGS ''a '') @ ''b c''"
  let ?cut = "concat (replicate MAX_ARGS ''a '')"
  note T = ParseCommand_MAX_ARGS[of sample_sys initial_shell ?long zeroed_cmd ?cut]
  have bc: "tokens ''b c'' = [''b'', ''c'']" by code_simp
  have e: "tokens [] = []" by code_simp
  have tl: "tokens ?long = replicate MAX_ARGS ''a'' @ [''b'', ''c'']"
    using tokens_words[of MAX_ARGS "''b c''"] bc by simp
  have tc: "tokens ?cut = replicate MAX_ARGS ''a''"
    using tokens_words[of MAX_ARGS "[]"] e by simp
  have n: "length (tokens ?long) = 514"
    unfolding tl by (simp add: MAX_ARGS_def)
  have same: "take MAX_ARGS (tokens ?long) = take MAX_ARGS (tokens ?cut)"
    unfolding tl tc by simp
  have a: "ExpandPID sample_sys ''a'' = Inr ''a''" by code_simp
  have "\<forall>t \<in> set (take MAX_ARGS (tokens ?long)). \<exists>x. ExpandPID sample_sys t = Inr x"
    unfolding tl using a by simp
  then obtain c where "ParseCommand sample_sys initial_shell ?long zeroed_cmd = Inr c"
    using T by blast
  then have r: "\<not> isl (ParseCommand sample_sys initial_shell ?long zeroed_cmd)"
    by simp
  have eq: "ParseCommand sample_sys initial_shell ?long zeroed_cmd
            = ParseCommand sample_sys initial_shell ?cut zeroed_cmd"
    using T same by blast
  from n eq r show ?thesis by (intro conjI)
qed

section \<open>The stored status\<close>

lemma childStatus_did [simp]: "childStatus (did e sh) = childStatus sh"
  by (simp add: did_def)

lemma childStatus_print [simp]: "childStatus (UTL_FlushedPrintOut t sh) = childStatus sh"
  by (simp add: UTL_FlushedPrintOut_def)

lemma childStatus_RemoveChildPid [simp]: "childStatus (RemoveChildPid p sh) = childStatus sh"
  by (simp add: RemoveChildPid_def split: option.split)

lemma childStatus_AddChildPid [simp]: "childStatus (AddChildPid p sh) = childStatus sh"
  by (simp add: AddChildPid_def split: option.split)







section \<open>The status of a foreground command\<close>

lemma exit_status_macros:
  "WTERMSIG (exit_status c) = 0"
  "\<not> WIFSIGNALED (exit_status c)"
  "WIFEXITED (exit_status c) = 1"
  "WEXITSTATUS (exit_status c) = c mod 256"
  by (simp_all add: WTERMSIG_def WIFSIGNALED_def WIFEXITED_def WEXITSTATUS_def exit_status_def)

lemma ExternalCommand_parent_childStatus:
  assumes "\<not> isBackground command"
  shows "childStatus (ExternalCommand_parent os command pid sh) =
           (if WIFSIGNALED (waited os pid) then waited os pid
            else if waited os pid \<noteq> 0 then WIFEXITED (waited os pid)
            else waited os pid)"
  using assms by (simp add: ExternalCommand_parent_def Let_def)

lemma foreground_exit_code:
  assumes "\<not> isBackground command" and "waited os pid = exit_status c"
  shows "childStatus (ExternalCommand_parent os command pid sh) = (if c mod 256 = 0 then 0 else 1)"
  using assms
  by (simp add: ExternalCommand_parent_childStatus exit_status_macros) (simp add: exit_status_def)

text \<open>
  C2. A foreground child that exits with code 2: the parent stores \<open>WIFEXITED\<close> of the
  wait status, which is 1, where it meant the exit code, and the \<open>status\<close> built-in that
  follows prints \<open>exit status 1\<close>. A foreground child killed by signal 2: the message
  \<open>terminated by signal 2\<close> is printed when the child is collected, and the \<open>status\<close>
  built-in that follows prints \<open>exit status 2\<close>, the raw wait status, in the format it
  uses for every status. (Each turn of the loop of main first prints the prompt.) The
  SIGCHLD that the end of the child raises sets \<open>childTerminated\<close>, and the turn then
  ends with a ReapZombies that finds no child to collect: the outcome is the same.
\<close>

theorem status_after_foreground_exit:
  "childStatus (final_state (main_body (sample_sys\<lparr>waited := \<lambda>p. exit_status 2\<rparr>)
                               ''ls nonexistent\<newline>'' initial_shell)) = 1
   \<and> stdout_of (final_state
        (and_then (main_body (sample_sys\<lparr>waited := \<lambda>p. exit_status 2\<rparr>)
                     ''ls nonexistent\<newline>'' initial_shell)
                  (\<lambda>r sh. main_body sample_sys ''status\<newline>'' sh)))
     = ['': '', '': '', ''exit status 1\<newline>'']
   \<and> stdout_of (final_state
        (and_then (main_body (sample_sys\<lparr>waited := \<lambda>p. signal_status 2\<rparr>)
                     ''sleep 100\<newline>'' initial_shell)
                  (\<lambda>r sh. main_body sample_sys ''status\<newline>'' sh)))
     = ['': '', ''terminated by signal 2\<newline>'', '': '', ''exit status 2\<newline>'']
   \<and> stdout_of (final_state
        (and_then (main_body (sample_sys\<lparr>waited := \<lambda>p. exit_status 2\<rparr>)
                     ''ls nonexistent\<newline>'' (HandleSIGCHLD initial_shell))
                  (\<lambda>r sh. main_body sample_sys ''status\<newline>'' sh)))
     = ['': '', '': '', ''exit status 1\<newline>'']"
proof (intro conjI)
  show "childStatus (final_state (main_body (sample_sys\<lparr>waited := \<lambda>p. exit_status 2\<rparr>)
                               ''ls nonexistent\<newline>'' initial_shell)) = 1"
    by code_simp
  show "stdout_of (final_state
        (and_then (main_body (sample_sys\<lparr>waited := \<lambda>p. exit_status 2\<rparr>)
                     ''ls nonexistent\<newline>'' initial_shell)
                  (\<lambda>r sh. main_body sample_sys ''status\<newline>'' sh)))
     = ['': '', '': '', ''exit status 1\<newline>'']"
    by code_simp
  show "stdout_of (final_state
        (and_then (main_body (sample_sys\<lparr>waited := \<lambda>p. signal_status 2\<rparr>)
                     ''sleep 100\<newline>'' initial_shell)
                  (\<lambda>r sh. main_body sample_sys ''status\<newline>'' sh)))
     = ['': '', ''terminated by signal 2\<newline>'', '': '', ''exit status 2\<newline>'']"
    by code_simp
  show "stdout_of (final_state
        (and_then (main_body (sample_sys\<lparr>waited := \<lambda>p. exit_status 2\<rparr>)
                     ''ls nonexistent\<newline>'' (HandleSIGCHLD initial_shell))
                  (\<lambda>r sh. main_body sample_sys ''status\<newline>'' sh)))
     = ['': '', '': '', ''exit status 1\<newline>'']"
    by code_simp
qed

section \<open>The exit built-in\<close>

lemma MyExit_child_childPids: "childPids (MyExit_child os sh i) = childPids sh"
  by (simp add: MyExit_child_def did_def)

lemma MyExit_child_trace:
  "trace (MyExit_child os sh i) =
     trace sh @ (if childPids sh i \<noteq> 0
                 then [Kill (childPids sh i) SIGTERM, Waitpid (childPids sh i) False] else [])"
  by (simp add: MyExit_child_def did_def)

lemma MyExit_loop:
  "childPids (foldl (MyExit_child os) sh ns) = childPids sh
   \<and> trace (foldl (MyExit_child os) sh ns) =
       trace sh @ concat (map (\<lambda>p. [Kill p SIGTERM, Waitpid p False])
                            (filter (\<lambda>p. p \<noteq> 0) (map (childPids sh) ns)))"
proof (induction ns arbitrary: sh)
  case Nil
  then show ?case by simp
next
  case (Cons n ns)
  show ?case
    by (simp add: Cons.IH[of "MyExit_child os sh n"] MyExit_child_childPids MyExit_child_trace)
qed

lemma stdout_of_append:
  "trace sh' = trace sh @ es \<Longrightarrow> \<forall>e \<in> set es. \<forall>t. e \<noteq> Stdout t \<Longrightarrow> stdout_of sh' = stdout_of sh"
proof -
  assume t: "trace sh' = trace sh @ es" and n: "\<forall>e \<in> set es. \<forall>t. e \<noteq> Stdout t"
  have "concat (map (\<lambda>e. case e of Stdout t \<Rightarrow> [t] | _ \<Rightarrow> []) es) = []"
    using n by (induction es) (auto split: event.splits)
  then show ?thesis
    by (simp add: stdout_of_def t)
qed

lemma MyExit_trace:
  "trace (final_state (MyExit os command sh)) =
     trace sh @ concat (map (\<lambda>p. [Kill p SIGTERM, Waitpid p False]) (registered sh))"
  by (simp add: MyExit_def final_state_def registered_def MyExit_loop)

lemma MyExit_stdout: "stdout_of (final_state (MyExit os command sh)) = stdout_of sh"
  by (rule stdout_of_append[OF MyExit_trace]) auto

lemma RunCommand_exit:
  "args command 0 = Some ''exit'' \<Longrightarrow> RunCommand os command sh = MyExit os command sh"
  using RunCommand_branch_eq[of command "''exit''"] by (simp add: RunCommand_def)

lemma main_body_exit:
  assumes "ParseCommand os (GetInput sh) (take (BUF_SIZE - 1) line) zeroed_cmd = Inr c"
    and "args c 0 = Some ''exit''"
  shows "main_body os line sh = MyExit os c (GetInput sh)"
  using assms
  by (simp add: main_body_def Let_def RunCommand_exit) (simp add: MyExit_def and_then_def)

text \<open>
  C5. MyExit ends the process with status \<open>EXIT_SUCCESS = 0\<close>, and what it does before
  that is, for each identifier registered in the table and in the order of the slots, one
  \<open>kill\<close> with SIGTERM then one blocking \<open>waitpid\<close> on that identifier; it does nothing
  else, and writes nothing. RunCommand calls it when the first argument is \<open>exit\<close>, and
  the turn of main's loop that reads such a line ends there, in MyExit: ReapZombies,
  which writes the reports on background jobs, is not reached.
\<close>

theorem MyExit_kills_and_waits:
  "EXIT_SUCCESS = 0
   \<and> MyExit os command sh = Stops (Exited EXIT_SUCCESS) (final_state (MyExit os command sh))
   \<and> trace (final_state (MyExit os command sh)) =
       trace sh @ concat (map (\<lambda>p. [Kill p SIGTERM, Waitpid p False]) (registered sh))
   \<and> stdout_of (final_state (MyExit os command sh)) = stdout_of sh
   \<and> (args command 0 = Some ''exit'' \<longrightarrow> RunCommand os command sh = MyExit os command sh)
   \<and> (ParseCommand os (GetInput sh) (take (BUF_SIZE - 1) line) zeroed_cmd = Inr command
        \<and> args command 0 = Some ''exit'' \<longrightarrow>
      main_body os line sh = MyExit os command (GetInput sh))"
proof (intro conjI impI)
  show "EXIT_SUCCESS = 0" by (simp add: EXIT_SUCCESS_def)
  show "MyExit os command sh = Stops (Exited EXIT_SUCCESS) (final_state (MyExit os command sh))"
    by (simp add: MyExit_def final_state_def)
  show "trace (final_state (MyExit os command sh)) =
       trace sh @ concat (map (\<lambda>p. [Kill p SIGTERM, Waitpid p False]) (registered sh))"
    by (rule MyExit_trace)
  show "stdout_of (final_state (MyExit os command sh)) = stdout_of sh"
    by (rule MyExit_stdout)
next
  assume "args command 0 = Some ''exit''"
  then show "RunCommand os command sh = MyExit os command sh"
    by (rule RunCommand_exit)
next
  assume "ParseCommand os (GetInput sh) (take (BUF_SIZE - 1) line) zeroed_cmd = Inr command
        \<and> args command 0 = Some ''exit''"
  then show "main_body os line sh = MyExit os command (GetInput sh)"
    using main_body_exit by blast
qed

theorem MyExit_kills_and_waits_witness:
  "main_body (sample_sys\<lparr>zombies := [(77, 0)]\<rparr>) ''exit\<newline>''
     ((AddChildPid 4321 (AddChildPid 77 initial_shell))\<lparr>childTerminated := True\<rparr>)
   = Stops (Exited 0)
       (final_state (main_body (sample_sys\<lparr>zombies := [(77, 0)]\<rparr>) ''exit\<newline>''
          ((AddChildPid 4321 (AddChildPid 77 initial_shell))\<lparr>childTerminated := True\<rparr>)))
   \<and> trace (final_state (main_body (sample_sys\<lparr>zombies := [(77, 0)]\<rparr>) ''exit\<newline>''
          ((AddChildPid 4321 (AddChildPid 77 initial_shell))\<lparr>childTerminated := True\<rparr>)))
     = [Stdout '': '', Kill 77 SIGTERM, Waitpid 77 False, Kill 4321 SIGTERM, Waitpid 4321 False]
   \<and> stdout_of (final_state (main_body (sample_sys\<lparr>zombies := [(77, 0)]\<rparr>) ''exit\<newline>''
          ((AddChildPid 4321 (AddChildPid 77 initial_shell))\<lparr>childTerminated := True\<rparr>)))
     = ['': '']"
proof -
  let ?os = "sample_sys\<lparr>zombies := [(77, 0)]\<rparr>"
  let ?sh = "(AddChildPid 4321 (AddChildPid 77 initial_shell))\<lparr>childTerminated := True\<rparr>"
  let ?line = "''exit\<newline>''"
  let ?c = "projr (ParseCommand ?os (GetInput ?sh) (take (BUF_SIZE - 1) ?line) zeroed_cmd)"
  have "\<not> isl (ParseCommand ?os (GetInput ?sh) (take (BUF_SIZE - 1) ?line) zeroed_cmd)"
    by code_simp
  then have p: "ParseCommand ?os (GetInput ?sh) (take (BUF_SIZE - 1) ?line) zeroed_cmd = Inr ?c"
    by (cases "ParseCommand ?os (GetInput ?sh) (take (BUF_SIZE - 1) ?line) zeroed_cmd") auto
  have a: "args ?c 0 = Some ''exit''"
    by code_simp
  have r: "registered (GetInput ?sh) = [77, 4321]"
    by code_simp
  have t: "trace (GetInput ?sh) = [Stdout '': '']"
    by code_simp
  have o: "stdout_of (GetInput ?sh) = ['': '']"
    by code_simp
  have m: "main_body ?os ?line ?sh = MyExit ?os ?c (GetInput ?sh)"
    using MyExit_kills_and_waits[of ?os ?c ?sh ?line] p a by blast
  note T = MyExit_kills_and_waits[of ?os ?c "GetInput ?sh" ?line]
  have e: "EXIT_SUCCESS = 0"
    using T by blast
  have s: "MyExit ?os ?c (GetInput ?sh) =
           Stops (Exited EXIT_SUCCESS) (final_state (MyExit ?os ?c (GetInput ?sh)))"
    using T by blast
  have tr: "trace (final_state (MyExit ?os ?c (GetInput ?sh))) =
           trace (GetInput ?sh) @
           concat (map (\<lambda>p. [Kill p SIGTERM, Waitpid p False]) (registered (GetInput ?sh)))"
    using T by blast
  have so: "stdout_of (final_state (MyExit ?os ?c (GetInput ?sh))) = stdout_of (GetInput ?sh)"
    using T by blast
  have 1: "main_body ?os ?line ?sh = Stops (Exited 0) (final_state (main_body ?os ?line ?sh))"
    unfolding m by (rule s[unfolded e])
  have 2: "trace (final_state (main_body ?os ?line ?sh))
           = [Stdout '': '', Kill 77 SIGTERM, Waitpid 77 False, Kill 4321 SIGTERM, Waitpid 4321 False]"
    unfolding m tr r t by simp
  have 3: "stdout_of (final_state (main_body ?os ?line ?sh)) = ['': '']"
    unfolding m so o by simp
  from 1 2 3 show ?thesis by (intro conjI)
qed

section \<open>The descriptors of a background child\<close>

lemma fd_file_set_fd:
  "0 \<le> m \<Longrightarrow>
   fd_file (sh\<lparr>fds := set_fd n v (fds sh)\<rparr>) m = (if nat m = n then v else fd_file sh m)"
  by (auto simp: fd_file_def set_fd_def nth_append nth_Cons split: nat.splits)

lemma lowest_free_None: "lowest_free t < length t \<Longrightarrow> t ! lowest_free t = None"
  unfolding lowest_free_def using nth_length_takeWhile[of "\<lambda>x. x \<noteq> None" t] by blast

lemma fd_file_lowest_free: "fd_file sh (int (lowest_free (fds sh))) = None"
  by (simp add: fd_file_def lowest_free_None)

lemma fd_file_did [simp]: "fd_file (did e sh) m = fd_file sh m"
  by (simp add: fd_file_def did_def)

lemma fd_file_sigaction [simp]: "fd_file (sigaction sig d sh) m = fd_file sh m"
  by (simp add: fd_file_def sigaction_def did_def)

lemma and_then_Continues [simp]: "and_then (Continues a s) f = f a s"
  by (simp add: and_then_def)

text \<open>
  One redirection, \<open>open\<close> then \<open>dup2\<close> onto the descriptor \<open>t\<close>: afterwards \<open>t\<close> is
  open on the file, and every other descriptor that was open is as it was.
\<close>

lemma open_dup2:
  assumes ok: "open_errno os p (if r then O_RDONLY else O_WRONLY_CREAT_TRUNC) = 0"
    and rw: "r \<or> w" and t: "0 \<le> t"
  shows "\<exists>fd sh'. and_then (UTL_OpenFile os (Some p) r w sh)
                     (\<lambda>fd s. Continues fd (dup2 fd t s)) = Continues fd sh'
           \<and> fd_file sh' t = Some (p, if r then O_RDONLY else O_WRONLY_CREAT_TRUNC)
           \<and> (\<forall>m. 0 \<le> m \<and> m \<noteq> t \<and> fd_file sh m \<noteq> None \<longrightarrow> fd_file sh' m = fd_file sh m)"
proof -
  let ?flag = "if r then O_RDONLY else O_WRONLY_CREAT_TRUNC"
  let ?sh1 = "did (Open (Some p) ?flag) sh"
  let ?n = "lowest_free (fds ?sh1)"
  let ?sh2 = "?sh1\<lparr>fds := set_fd ?n (Some (p, ?flag)) (fds ?sh1)\<rparr>"
  have f: "(if r then O_RDONLY else if w then O_WRONLY_CREAT_TRUNC else O_RDONLY) = ?flag"
    using rw by auto
  have op: "UTL_OpenFile os (Some p) r w sh = Continues (int ?n) ?sh2"
    using ok by (simp add: UTL_OpenFile_def Let_def f)
  have n2: "fd_file ?sh2 (int ?n) = Some (p, ?flag)"
    by (simp add: fd_file_set_fd)
  let ?sh3 = "did (Dup2 (int ?n) t) ?sh2"
  let ?sh4 = "?sh3\<lparr>fds := set_fd (nat t) (fd_file ?sh3 (int ?n)) (fds ?sh3)\<rparr>"
  have n3: "fd_file ?sh3 (int ?n) = Some (p, ?flag)"
    using n2 by simp
  have d: "dup2 (int ?n) t ?sh2 = ?sh4"
    using n3 t by (simp add: dup2_def Let_def)
  have 1: "and_then (UTL_OpenFile os (Some p) r w sh) (\<lambda>fd s. Continues fd (dup2 fd t s))
           = Continues (int ?n) ?sh4"
    unfolding op and_then_Continues d by (rule refl)
  have 2: "fd_file ?sh4 t = Some (p, ?flag)"
    using t n3 by (simp add: fd_file_set_fd)
  have 3: "fd_file ?sh4 m = fd_file sh m" if m: "0 \<le> m" "m \<noteq> t" "fd_file sh m \<noteq> None" for m
  proof -
    have "fd_file ?sh1 (int ?n) = None"
      by (rule fd_file_lowest_free)
    then have "m \<noteq> int ?n"
      using m(3) by auto
    then have "nat m \<noteq> ?n"
      using m(1) by auto
    then have a: "fd_file ?sh2 m = fd_file sh m"
      using m(1) by (simp add: fd_file_set_fd)
    have "nat m \<noteq> nat t"
      using m(1,2) t by auto
    then have "fd_file ?sh4 m = fd_file ?sh3 m"
      using m(1) by (simp add: fd_file_set_fd)
    then show ?thesis
      using a by simp
  qed
  from 1 2 3 show ?thesis by blast
qed

text \<open>Two redirections in a row, onto different descriptors: both hold at the end.\<close>

lemma open_dup2_twice:
  assumes a: "open_errno os pa (if ra then O_RDONLY else O_WRONLY_CREAT_TRUNC) = 0" "ra \<or> wa"
             "0 \<le> ta"
    and b: "open_errno os pb (if rb then O_RDONLY else O_WRONLY_CREAT_TRUNC) = 0" "rb \<or> wb"
           "0 \<le> tb"
    and ne: "ta \<noteq> tb"
  shows "\<exists>fa sa fb sb.
           and_then (UTL_OpenFile os (Some pa) ra wa sh)
             (\<lambda>fd s. Continues fd (dup2 fd ta s)) = Continues fa sa
         \<and> and_then (UTL_OpenFile os (Some pb) rb wb sa)
             (\<lambda>fd s. Continues fd (dup2 fd tb s)) = Continues fb sb
         \<and> fd_file sb ta = Some (pa, if ra then O_RDONLY else O_WRONLY_CREAT_TRUNC)
         \<and> fd_file sb tb = Some (pb, if rb then O_RDONLY else O_WRONLY_CREAT_TRUNC)"
proof -
  obtain fa sa where
    1: "and_then (UTL_OpenFile os (Some pa) ra wa sh)
          (\<lambda>fd s. Continues fd (dup2 fd ta s)) = Continues fa sa"
    and 2: "fd_file sa ta = Some (pa, if ra then O_RDONLY else O_WRONLY_CREAT_TRUNC)"
    using open_dup2[OF a, of sh] by blast
  obtain fb sb where
    3: "and_then (UTL_OpenFile os (Some pb) rb wb sa)
          (\<lambda>fd s. Continues fd (dup2 fd tb s)) = Continues fb sb"
    and 4: "fd_file sb tb = Some (pb, if rb then O_RDONLY else O_WRONLY_CREAT_TRUNC)"
    and 5: "\<forall>m. 0 \<le> m \<and> m \<noteq> tb \<and> fd_file sa m \<noteq> None \<longrightarrow> fd_file sb m = fd_file sa m"
    using open_dup2[OF b, of sa] by blast
  have "fd_file sb ta = fd_file sa ta"
    using 5 a(3) ne 2 by simp
  then have 6: "fd_file sb ta = Some (pa, if ra then O_RDONLY else O_WRONLY_CREAT_TRUNC)"
    using 2 by simp
  from 1 3 4 6 show ?thesis by blast
qed

lemma background_redirect:
  assumes bg: "isBackground command"
    and out: "(if isRedirectOutput command then output command else Some DEV_NULL) = Some pout"
    and inp: "(if isRedirectInput command then input command else Some DEV_NULL) = Some pin"
    and oko: "open_errno os pout O_WRONLY_CREAT_TRUNC = 0"
    and oki: "open_errno os pin O_RDONLY = 0"
  shows "\<exists>fdl sh'. ExternalCommand_redirect os command sh = Continues fdl sh'
           \<and> fd_file sh' STDOUT_FILENO = Some (pout, O_WRONLY_CREAT_TRUNC)
           \<and> fd_file sh' STDIN_FILENO = Some (pin, O_RDONLY)"
proof -
  let ?s = "sigaction SIGTSTP SIG_IGN (sigaction SIGCHLD SIG_DFL sh)"
  have A: "open_errno os pout (if False then O_RDONLY else O_WRONLY_CREAT_TRUNC) = 0"
          "False \<or> True" "0 \<le> STDOUT_FILENO"
    using oko by (simp_all add: STDOUT_FILENO_def)
  have B: "open_errno os pin (if True then O_RDONLY else O_WRONLY_CREAT_TRUNC) = 0"
          "True \<or> False" "0 \<le> STDIN_FILENO"
    using oki by (simp_all add: STDIN_FILENO_def)
  have ne: "STDOUT_FILENO \<noteq> STDIN_FILENO" "STDIN_FILENO \<noteq> STDOUT_FILENO"
    by (simp_all add: STDOUT_FILENO_def STDIN_FILENO_def)
  show ?thesis
  proof (cases "isRedirectInput command \<and> \<not> isRedirectOutput command")
    case True
    obtain fa sa fb sb where
      1: "and_then (UTL_OpenFile os (Some pin) True False ?s)
            (\<lambda>fd s. Continues fd (dup2 fd STDIN_FILENO s)) = Continues fa sa"
      and 2: "and_then (UTL_OpenFile os (Some pout) False True sa)
            (\<lambda>fd s. Continues fd (dup2 fd STDOUT_FILENO s)) = Continues fb sb"
      and 3: "fd_file sb STDIN_FILENO = Some (pin, O_RDONLY)"
      and 4: "fd_file sb STDOUT_FILENO = Some (pout, O_WRONLY_CREAT_TRUNC)"
      using open_dup2_twice[OF B A ne(2), of ?s] by auto
    have "ExternalCommand_redirect os command sh = Continues (fb, fa) sb"
      using True bg out inp 1 2
      by (simp add: ExternalCommand_redirect_def Let_def OPEN_FILE_WRITE_def OPEN_FILE_READ_def)
    with 3 4 show ?thesis by blast
  next
    case False
    obtain fa sa fb sb where
      1: "and_then (UTL_OpenFile os (Some pout) False True ?s)
            (\<lambda>fd s. Continues fd (dup2 fd STDOUT_FILENO s)) = Continues fa sa"
      and 2: "and_then (UTL_OpenFile os (Some pin) True False sa)
            (\<lambda>fd s. Continues fd (dup2 fd STDIN_FILENO s)) = Continues fb sb"
      and 3: "fd_file sb STDOUT_FILENO = Some (pout, O_WRONLY_CREAT_TRUNC)"
      and 4: "fd_file sb STDIN_FILENO = Some (pin, O_RDONLY)"
      using open_dup2_twice[OF A B ne(1), of ?s] by auto
    have "ExternalCommand_redirect os command sh = Continues (fa, fb) sb"
      using False bg out inp 1 2
      by (cases "isRedirectOutput command"; cases "isRedirectInput command")
         (simp_all add: ExternalCommand_redirect_def Let_def OPEN_FILE_WRITE_def
            OPEN_FILE_READ_def)
    with 3 4 show ?thesis by blast
  qed
qed

lemma ExternalCommand_exec_ok:
  assumes "args command 0 = Some prog"
    and "\<not> list_all (\<lambda>i. args command i \<noteq> None) [0..<MAX_ARGS]"
    and "can_exec os prog"
  shows "ExternalCommand_exec os command fdl sh =
           Stops (Replaced prog (argv command)) (did (Execvp prog (argv command)) sh)"
  using assms by (simp add: ExternalCommand_exec_def Let_def)

text \<open>
  C6. The child of a background command, when the files open: at the end of the
  redirections, and so when execvp replaces the program, its standard output is open for
  writing on the path given with \<open>>\<close> if there is one and on \<open>/dev/null\<close> if not, and its
  standard input is open for reading on the path given with \<open><\<close> if there is one and on
  \<open>/dev/null\<close> if not. With no redirection on the line both are on \<open>/dev/null\<close>.
\<close>

theorem ExternalCommand_background_descriptors:
  assumes "isBackground command"
    and "(if isRedirectOutput command then output command else Some DEV_NULL) = Some pout"
    and "(if isRedirectInput command then input command else Some DEV_NULL) = Some pin"
    and "open_errno os pout O_WRONLY_CREAT_TRUNC = 0"
    and "open_errno os pin O_RDONLY = 0"
  shows "DEV_NULL = ''/dev/null'' \<and> STDIN_FILENO = 0 \<and> STDOUT_FILENO = 1
       \<and> (\<exists>fdl sh'. ExternalCommand_redirect os command sh = Continues fdl sh'
             \<and> fd_file sh' STDOUT_FILENO = Some (pout, O_WRONLY_CREAT_TRUNC)
             \<and> fd_file sh' STDIN_FILENO = Some (pin, O_RDONLY))
       \<and> (fork os = 0 \<longrightarrow>
            (\<exists>fdl sh'. ExternalCommand os command sh = ExternalCommand_exec os command fdl sh'
               \<and> fd_file sh' STDOUT_FILENO = Some (pout, O_WRONLY_CREAT_TRUNC)
               \<and> fd_file sh' STDIN_FILENO = Some (pin, O_RDONLY)))
       \<and> (fork os = 0 \<and> args command 0 = Some prog
            \<and> \<not> list_all (\<lambda>i. args command i \<noteq> None) [0..<MAX_ARGS] \<and> can_exec os prog \<longrightarrow>
            (\<exists>sh'. ExternalCommand os command sh = Stops (Replaced prog (argv command)) sh'
               \<and> fd_file sh' STDOUT_FILENO = Some (pout, O_WRONLY_CREAT_TRUNC)
               \<and> fd_file sh' STDIN_FILENO = Some (pin, O_RDONLY)))"
proof -
  have c: "DEV_NULL = ''/dev/null''" "STDIN_FILENO = 0" "STDOUT_FILENO = 1"
    by (simp_all add: DEV_NULL_def STDIN_FILENO_def STDOUT_FILENO_def)
  have r: "\<exists>fdl sh'. ExternalCommand_redirect os command s = Continues fdl sh'
             \<and> fd_file sh' STDOUT_FILENO = Some (pout, O_WRONLY_CREAT_TRUNC)
             \<and> fd_file sh' STDIN_FILENO = Some (pin, O_RDONLY)" for s
    using assms by (rule background_redirect)
  obtain fdl sh' where
    1: "ExternalCommand_redirect os command (did Fork sh) = Continues fdl sh'"
    and 2: "fd_file sh' STDOUT_FILENO = Some (pout, O_WRONLY_CREAT_TRUNC)"
    and 3: "fd_file sh' STDIN_FILENO = Some (pin, O_RDONLY)"
    using r[of "did Fork sh"] by blast
  have e: "ExternalCommand os command sh = ExternalCommand_exec os command fdl sh'"
    if "fork os = 0"
    using that 1 by (simp add: ExternalCommand_def Let_def)
  have x: "\<exists>sh''. ExternalCommand os command sh = Stops (Replaced prog (argv command)) sh''
               \<and> fd_file sh'' STDOUT_FILENO = Some (pout, O_WRONLY_CREAT_TRUNC)
               \<and> fd_file sh'' STDIN_FILENO = Some (pin, O_RDONLY)"
    if "fork os = 0 \<and> args command 0 = Some prog
        \<and> \<not> list_all (\<lambda>i. args command i \<noteq> None) [0..<MAX_ARGS] \<and> can_exec os prog"
  proof -
    have "ExternalCommand os command sh =
            Stops (Replaced prog (argv command)) (did (Execvp prog (argv command)) sh')"
      using that e ExternalCommand_exec_ok[of command prog os fdl sh'] by simp
    then show ?thesis
      using 2 3 by simp
  qed
  show ?thesis
    using c r[of sh] e 2 3 x by blast
qed

theorem ExternalCommand_background_descriptors_witness:
  "fd_file (final_state (ExternalCommand (sample_sys\<lparr>fork := 0\<rparr>)
              (zeroed_cmd\<lparr>args := [0 \<mapsto> ''sleep'', 1 \<mapsto> ''100''], isBackground := True\<rparr>)
              initial_shell)) 1 = Some (''/dev/null'', O_WRONLY_CREAT_TRUNC)
   \<and> fd_file (final_state (ExternalCommand (sample_sys\<lparr>fork := 0\<rparr>)
              (zeroed_cmd\<lparr>args := [0 \<mapsto> ''sleep'', 1 \<mapsto> ''100''], isBackground := True\<rparr>)
              initial_shell)) 0 = Some (''/dev/null'', O_RDONLY)
   \<and> fd_file (final_state (ExternalCommand (sample_sys\<lparr>fork := 0\<rparr>)
              (zeroed_cmd\<lparr>args := [0 \<mapsto> ''cat''], input := Some ''in'',
                 isRedirectInput := True, isBackground := True\<rparr>)
              initial_shell)) 1 = Some (''/dev/null'', O_WRONLY_CREAT_TRUNC)
   \<and> fd_file (final_state (ExternalCommand (sample_sys\<lparr>fork := 0\<rparr>)
              (zeroed_cmd\<lparr>args := [0 \<mapsto> ''cat''], input := Some ''in'',
                 isRedirectInput := True, isBackground := True\<rparr>)
              initial_shell)) 0 = Some (''in'', O_RDONLY)"
proof -
  let ?os = "sample_sys\<lparr>fork := 0\<rparr>"
  let ?c1 = "zeroed_cmd\<lparr>args := [0 \<mapsto> ''sleep'', 1 \<mapsto> ''100''], isBackground := True\<rparr>"
  let ?c2 = "zeroed_cmd\<lparr>args := [0 \<mapsto> ''cat''], input := Some ''in'',
                 isRedirectInput := True, isBackground := True\<rparr>"
  have os: "fork ?os = 0" "can_exec ?os p" "open_errno ?os q f = 0" for p q f
    by (simp_all add: sample_sys_def)
  have n1: "\<not> list_all (\<lambda>i. args ?c1 i \<noteq> None) [0..<MAX_ARGS]"
    by code_simp
  have n2: "\<not> list_all (\<lambda>i. args ?c2 i \<noteq> None) [0..<MAX_ARGS]"
    by code_simp
  have h1: "isBackground ?c1"
    "(if isRedirectOutput ?c1 then output ?c1 else Some DEV_NULL) = Some ''/dev/null''"
    "(if isRedirectInput ?c1 then input ?c1 else Some DEV_NULL) = Some ''/dev/null''"
    "args ?c1 0 = Some ''sleep''"
    by (simp_all add: zeroed_cmd_def DEV_NULL_def)
  have h2: "isBackground ?c2"
    "(if isRedirectOutput ?c2 then output ?c2 else Some DEV_NULL) = Some ''/dev/null''"
    "(if isRedirectInput ?c2 then input ?c2 else Some DEV_NULL) = Some ''in''"
    "args ?c2 0 = Some ''cat''"
    by (simp_all add: zeroed_cmd_def DEV_NULL_def)
  note T1 = ExternalCommand_background_descriptors[OF h1(1) h1(2) h1(3) os(3) os(3),
              of initial_shell "''sleep''"]
  note T2 = ExternalCommand_background_descriptors[OF h2(1) h2(2) h2(3) os(3) os(3),
              of initial_shell "''cat''"]
  obtain s1 where
    a1: "ExternalCommand ?os ?c1 initial_shell = Stops (Replaced ''sleep'' (argv ?c1)) s1"
    and b1: "fd_file s1 STDOUT_FILENO = Some (''/dev/null'', O_WRONLY_CREAT_TRUNC)"
            "fd_file s1 STDIN_FILENO = Some (''/dev/null'', O_RDONLY)"
    using T1 os(1) os(2) h1(4) n1 by blast
  obtain s2 where
    a2: "ExternalCommand ?os ?c2 initial_shell = Stops (Replaced ''cat'' (argv ?c2)) s2"
    and b2: "fd_file s2 STDOUT_FILENO = Some (''/dev/null'', O_WRONLY_CREAT_TRUNC)"
            "fd_file s2 STDIN_FILENO = Some (''in'', O_RDONLY)"
    using T2 os(1) os(2) h2(4) n2 by blast
  have k: "STDOUT_FILENO = 1" "STDIN_FILENO = 0"
    by (simp_all add: STDOUT_FILENO_def STDIN_FILENO_def)
  have f1: "final_state (ExternalCommand ?os ?c1 initial_shell) = s1"
    unfolding a1 by (simp add: final_state_def)
  have f2: "final_state (ExternalCommand ?os ?c2 initial_shell) = s2"
    unfolding a2 by (simp add: final_state_def)
  show ?thesis
    unfolding f1 f2 using b1 b2 unfolding k by (intro conjI)
qed

end
